theory Spec2Isabelle
  imports Complex_Main "HOL-Library.Sublist"
begin

section \<open>JavaScript values used by the pipeline\<close>

text \<open>
  Fields of the JSON objects are read at the types the code documents for them: an
  identifier is a string, a transfer list is an array. A field that is absent is
  \<open>None\<close>, and a JSON \<^verbatim>\<open>null\<close> is read as an absent field; the code tells the two
  apart in two places only, \<^verbatim>\<open>new Date(null * 1000)\<close> (the epoch, where an absent
  timestamp gives an invalid date) and the text of the URL built from a pool identifier.
  A string is truthy when it is not empty, a number when it is not zero. Numbers come
  from JSON, so they are finite; they are rationals here and are compared exactly, and
  \<^verbatim>\<open>-0\<close> is \<open>0\<close>.
\<close>

definition truthy :: "string option \<Rightarrow> bool" where
  "truthy v = (case v of None \<Rightarrow> False | Some s \<Rightarrow> s \<noteq> [])"

definition truthy_num :: "rat option \<Rightarrow> bool" where
  "truthy_num v = (case v of None \<Rightarrow> False | Some n \<Rightarrow> n \<noteq> 0)"

text \<open>\<^verbatim>\<open>a || b\<close> on optional strings and optional numbers.\<close>

definition js_or :: "string option \<Rightarrow> string option \<Rightarrow> string option" where
  "js_or a b = (if truthy a then a else b)"

definition or_str :: "string option \<Rightarrow> string \<Rightarrow> string" where
  "or_str a d = (case a of None \<Rightarrow> d | Some s \<Rightarrow> if s \<noteq> [] then s else d)"

definition or_null :: "rat option \<Rightarrow> rat option" where
  "or_null a = (if truthy_num a then a else None)"

definition or_num :: "rat option \<Rightarrow> rat \<Rightarrow> rat" where
  "or_num a d = (case a of None \<Rightarrow> d | Some n \<Rightarrow> if n \<noteq> 0 then n else d)"

text \<open>
  \<^verbatim>\<open>[...new Set(xs)]\<close>: the elements of \<open>xs\<close> are added one by one to a set that
  keeps insertion order; an element already present is not added again.
\<close>

fun set_add_all :: "'a list \<Rightarrow> 'a list \<Rightarrow> 'a list" where
  "set_add_all seen [] = seen"
| "set_add_all seen (x # xs) = set_add_all (if x \<in> set seen then seen else seen @ [x]) xs"

definition new_Set :: "'a list \<Rightarrow> 'a list" where
  "new_Set xs = set_add_all [] xs"

section \<open>Transaction notifications and pool candidates\<close>

record token_transfer =
  mint :: "string option"

record account_entry =
  account :: "string option"

record transaction =
  tx_type :: "string option"
  tx_source :: "string option"
  tx_signature :: "string option"
  tx_timestamp :: "int option"
  tokenTransfers :: "token_transfer list option"
  accountData :: "account_entry list option"
  accounts :: "string list option"
  feePayer :: "string option"

record pool_candidate =
  tokenA :: string
  tokenB :: string
  poolAddress :: "string option"
  signature :: "string option"
  timestamp :: "int option"
  source :: string

definition SOL_MINT :: string where
  "SOL_MINT = ''So11111111111111111111111111111111111111112''"

definition TOKEN_PROGRAM :: string where
  "TOKEN_PROGRAM = ''TokenkegQfeZyiNwAJbNbGKPFXCWuBvf9Ss623VQ5DA''"

definition SYSTEM_PROGRAM :: string where
  "SYSTEM_PROGRAM = ''11111111111111111111111111111111''"

definition ATA_PROGRAM :: string where
  "ATA_PROGRAM = ''ATokenGPvbdGVxr1b2hvZbsiqW5xWH25efTNsLJA8knL''"

definition RAYDIUM_PROGRAM :: string where
  "RAYDIUM_PROGRAM = ''675kPX9MHTjS2zt1qfr1NYHuzeLXfQM9H24wFSUt1Mp8''"

text \<open>
  \<^verbatim>\<open>new Date(transaction.timestamp * 1000)\<close>: milliseconds since the epoch, or an
  invalid date (\<open>None\<close>) when the timestamp is absent or the result is outside the
  range a Date can hold.
\<close>

definition new_Date :: "int option \<Rightarrow> int option" where
  "new_Date secs =
     (case secs of
        None \<Rightarrow> None
      | Some s \<Rightarrow> if \<bar>s * 1000\<bar> \<le> 8640000000000000 then Some (s * 1000) else None)"

subsection \<open>WebhookHandler.parsePoolFromTransaction\<close>

text \<open>
  The mint of a transfer when it passes \<^verbatim>\<open>mint && mint !== SOL\<close>; the list of these
  is \<^verbatim>\<open>tokenTransfers.map(t => t.mint).filter(...)\<close>.
\<close>

definition keptMint :: "token_transfer \<Rightarrow> string option" where
  "keptMint tr =
     (case mint tr of
        None \<Rightarrow> None
      | Some m \<Rightarrow> if m \<noteq> [] \<and> m \<noteq> SOL_MINT then Some m else None)"

definition tokenMintsOf :: "token_transfer list \<Rightarrow> string list" where
  "tokenMintsOf trs = new_Set (List.map_filter keptMint trs)"

text \<open>The callback of \<^verbatim>\<open>accountData.find\<close>.\<close>

definition poolAccountEntry :: "transaction \<Rightarrow> string list \<Rightarrow> account_entry \<Rightarrow> bool" where
  "poolAccountEntry t tokenMints e =
     (case account e of
        None \<Rightarrow> False
      | Some a \<Rightarrow>
          a \<noteq> [] \<and>
          Some a \<noteq> feePayer t \<and>
          a \<notin> set tokenMints \<and>
          a \<noteq> SOL_MINT \<and>
          a \<noteq> TOKEN_PROGRAM \<and>
          a \<noteq> SYSTEM_PROGRAM \<and>
          a \<noteq> ATA_PROGRAM \<and>
          a \<noteq> RAYDIUM_PROGRAM)"

definition findPoolAddress :: "transaction \<Rightarrow> string list \<Rightarrow> string option" where
  "findPoolAddress t tokenMints =
     (case accountData t of
        None \<Rightarrow> None
      | Some entries \<Rightarrow>
          (case find (poolAccountEntry t tokenMints) entries of
             None \<Rightarrow> None
           | Some e \<Rightarrow> account e))"

text \<open>
  The result is \<open>None\<close> for \<^verbatim>\<open>null\<close>. The body runs inside \<^verbatim>\<open>try\<close>/\<^verbatim>\<open>catch\<close>
  and the handler returns \<^verbatim>\<open>null\<close>; on inputs of the types above no step of the
  body throws.
\<close>

definition parsePoolFromTransaction :: "transaction \<Rightarrow> pool_candidate option" where
  "parsePoolFromTransaction t =
     (case tokenTransfers t of
        None \<Rightarrow> None
      | Some trs \<Rightarrow>
          if length trs < 2 then None
          else
            (case tokenMintsOf trs of
               a # b # rest \<Rightarrow>
                 Some \<lparr> tokenA = a,
                        tokenB = b,
                        poolAddress = js_or (findPoolAddress t (a # b # rest)) (tx_signature t),
                        signature = tx_signature t,
                        timestamp = new_Date (tx_timestamp t),
                        source = or_str (tx_source t) ''unknown'' \<rparr>
             | _ \<Rightarrow> None))"

subsection \<open>The stand-alone parser of the single-file server\<close>

text \<open>
  \<^verbatim>\<open>parsePoolFromTransaction\<close> of the single-file server: it accepts only
  \<^verbatim>\<open>CREATE_POOL\<close>, and it scans \<^verbatim>\<open>transaction.accounts\<close> (a list of strings).
\<close>

definition server_poolAccount :: "transaction \<Rightarrow> string list \<Rightarrow> string \<Rightarrow> bool" where
  "server_poolAccount t finalTokens a =
     (Some a \<noteq> feePayer t \<and>
      a \<notin> set finalTokens \<and>
      a \<noteq> SOL_MINT \<and>
      a \<noteq> TOKEN_PROGRAM \<and>
      a \<noteq> SYSTEM_PROGRAM \<and>
      a \<noteq> ATA_PROGRAM \<and>
      a \<noteq> RAYDIUM_PROGRAM)"

definition server_parsePoolFromTransaction :: "transaction \<Rightarrow> pool_candidate option" where
  "server_parsePoolFromTransaction t =
     (case tokenTransfers t of
        None \<Rightarrow> None
      | Some transfers \<Rightarrow>
          if tx_type t \<noteq> Some ''CREATE_POOL'' then None
          else
            (case tokenMintsOf transfers of
               a # b # rest \<Rightarrow>
                 Some \<lparr> tokenA = a,
                        tokenB = b,
                        poolAddress =
                          js_or (case accounts t of
                                   None \<Rightarrow> None
                                 | Some accs \<Rightarrow> find (server_poolAccount t (a # b # rest)) accs)
                                (tx_signature t),
                        signature = tx_signature t,
                        timestamp = new_Date (tx_timestamp t),
                        source = or_str (tx_source t) ''unknown'' \<rparr>
             | _ \<Rightarrow> None))"

text \<open>The non-native mint identifiers that occur among a list of transfers.\<close>

definition nonNativeMints :: "token_transfer list \<Rightarrow> string set" where
  "nonNativeMints trs = {m. \<exists>tr \<in> set trs. mint tr = Some m \<and> m \<noteq> [] \<and> m \<noteq> SOL_MINT}"

text \<open>A transfer carries a non-native mint identifier.\<close>

definition nonNative :: "token_transfer \<Rightarrow> bool" where
  "nonNative tr = (case mint tr of None \<Rightarrow> False | Some m \<Rightarrow> m \<noteq> [] \<and> m \<noteq> SOL_MINT)"

text \<open>
  An account identifier that the scan of the handler may select: it is not empty, not
  the fee payer, not any non-native mint of the transfers, not the native mint and not
  one of the four program identifiers.
\<close>

definition selectable :: "transaction \<Rightarrow> token_transfer list \<Rightarrow> string \<Rightarrow> bool" where
  "selectable t trs a =
     (a \<noteq> [] \<and> Some a \<noteq> feePayer t \<and> a \<notin> nonNativeMints trs \<and>
      a \<notin> {SOL_MINT, TOKEN_PROGRAM, SYSTEM_PROGRAM, ATA_PROGRAM, RAYDIUM_PROGRAM})"

text \<open>
  The pool address as the specification words it: the first account that is not the
  fee payer, not one of the two token mints of the candidate, not the native mint and
  not a program identifier; the signature when there is none.
\<close>

definition spec_poolAddress :: "transaction \<Rightarrow> string \<Rightarrow> string \<Rightarrow> string option" where
  "spec_poolAddress t a b =
     (case find (\<lambda>x. Some x \<noteq> feePayer t \<and> x \<noteq> a \<and> x \<noteq> b \<and> x \<noteq> SOL_MINT \<and>
                      x \<noteq> TOKEN_PROGRAM \<and> x \<noteq> SYSTEM_PROGRAM \<and> x \<noteq> ATA_PROGRAM \<and>
                      x \<noteq> RAYDIUM_PROGRAM)
                (case accountData t of
                   None \<Rightarrow> []
                 | Some entries \<Rightarrow> List.map_filter account entries) of
        None \<Rightarrow> tx_signature t
      | Some x \<Rightarrow> Some x)"

subsection \<open>Example transactions\<close>

definition tx_one_mint :: transaction where
  "tx_one_mint =
     \<lparr> tx_type = Some ''CREATE_POOL'', tx_source = Some ''RAYDIUM'',
       tx_signature = Some ''sig0'', tx_timestamp = Some 1700000000,
       tokenTransfers = Some [\<lparr>mint = Some ''MintA''\<rparr>, \<lparr>mint = Some SOL_MINT\<rparr>,
                              \<lparr>mint = Some ''MintA''\<rparr>],
       accountData = Some [\<lparr>account = Some ''Pool''\<rparr>],
       accounts = None, feePayer = Some ''payer'' \<rparr>"

definition tx_two_mints :: transaction where
  "tx_two_mints =
     \<lparr> tx_type = Some ''CREATE_POOL'', tx_source = Some ''RAYDIUM'',
       tx_signature = Some ''sig2'', tx_timestamp = Some 1700000000,
       tokenTransfers = Some [\<lparr>mint = Some SOL_MINT\<rparr>, \<lparr>mint = Some ''MintA''\<rparr>,
                              \<lparr>mint = Some ''MintA''\<rparr>, \<lparr>mint = Some ''MintB''\<rparr>],
       accountData = Some [\<lparr>account = Some ''payer''\<rparr>, \<lparr>account = Some ''MintB''\<rparr>,
                           \<lparr>account = Some ''Pool''\<rparr>],
       accounts = None, feePayer = Some ''payer'' \<rparr>"

definition tx_three_mints :: transaction where
  "tx_three_mints =
     \<lparr> tx_type = Some ''CREATE_POOL'', tx_source = Some ''RAYDIUM'',
       tx_signature = Some ''sig3'', tx_timestamp = Some 1700000000,
       tokenTransfers = Some [\<lparr>mint = Some ''MintA''\<rparr>, \<lparr>mint = Some ''MintB''\<rparr>,
                              \<lparr>mint = Some ''MintLP''\<rparr>],
       accountData = Some [\<lparr>account = Some ''payer''\<rparr>, \<lparr>account = Some ''MintLP''\<rparr>,
                           \<lparr>account = Some ''Pool''\<rparr>],
       accounts = None, feePayer = Some ''payer'' \<rparr>"

text \<open>The example transaction of the specification.\<close>

definition spec_example :: transaction where
  "spec_example =
     \<lparr> tx_type = Some ''CREATE_POOL'', tx_source = None,
       tx_signature = Some ''sig1'', tx_timestamp = Some 1700000000,
       tokenTransfers = Some [\<lparr>mint = Some ''TokenA...''\<rparr>, \<lparr>mint = Some SOL_MINT\<rparr>,
                              \<lparr>mint = Some ''TokenB...''\<rparr>],
       accountData = None,
       accounts = Some [''feePayer'', ''PoolAcct'', ''TokenA...'', ''TokenB...''],
       feePayer = Some ''feePayer'' \<rparr>"

text \<open>The same transaction with its accounts given as \<^verbatim>\<open>accountData\<close> entries.\<close>

definition spec_example_accountData :: transaction where
  "spec_example_accountData =
     spec_example \<lparr> accountData :=
       Some [\<lparr>account = Some ''feePayer''\<rparr>, \<lparr>account = Some ''PoolAcct''\<rparr>,
             \<lparr>account = Some ''TokenA...''\<rparr>, \<lparr>account = Some ''TokenB...''\<rparr>] \<rparr>"

section \<open>RetryHelper\<close>

text \<open>
  The operation is given by the outcome of each of its invocations: \<open>fn k\<close> is what the
  \<open>k\<close>-th call (counted from \<open>0\<close>) does, \<open>Inl error\<close> when it throws and \<open>Inr v\<close>
  when it returns. A run is recorded as the list of its events, an invocation
  \<open>Attempt k\<close> or a timer \<open>Sleep d\<close> asked for \<open>d\<close> milliseconds, with the result:
  \<open>Inl error\<close> for a rejection, \<open>Inr (Some v)\<close> for a value, \<open>Inr None\<close> when the loop
  ends without returning (\<^verbatim>\<open>undefined\<close>). The retry limit is an integer; every
  caller in the sources leaves it at its default, 3.
\<close>

datatype retry_event = Attempt nat | Sleep nat

function withBackoff_from ::
  "(nat \<Rightarrow> 'e + 'a) \<Rightarrow> int \<Rightarrow> nat \<Rightarrow> retry_event list \<times> ('e + 'a option)" where
  "withBackoff_from fn maxRetries i =
     (if int i < maxRetries then
        (case fn i of
           Inr v \<Rightarrow> ([Attempt i], Inr (Some v))
         | Inl error \<Rightarrow>
             if int i = maxRetries - 1 then ([Attempt i], Inl error)
             else
               (let delay = 2 ^ i * 1000;
                    (events, result) = withBackoff_from fn maxRetries (i + 1)
                in (Attempt i # Sleep delay # events, result)))
      else ([], Inr None))"
  by pat_completeness auto
termination
  by (relation "measure (\<lambda>(fn, maxRetries, i). nat (maxRetries - int i))") auto

declare withBackoff_from.simps [simp del]

definition withBackoff :: "(nat \<Rightarrow> 'e + 'a) \<Rightarrow> int \<Rightarrow> retry_event list \<times> ('e + 'a option)" where
  "withBackoff fn maxRetries = withBackoff_from fn maxRetries 0"


section \<open>RateLimiter\<close>

text \<open>
  Time is the reading of \<^verbatim>\<open>Date.now()\<close> in milliseconds. \<^verbatim>\<open>setTimeout\<close> of Node
  sets a delay below 1 or above \<open>2^31 - 1\<close> milliseconds to 1 millisecond.
\<close>

definition setTimeout_delay :: "int \<Rightarrow> int" where
  "setTimeout_delay ms = (if ms < 1 \<or> 2147483647 < ms then 1 else ms)"

text \<open>
  \<open>wait rl now drift\<close> is a call that starts when the clock reads \<open>now\<close>. The call is
  due at once when enough time has passed, and otherwise when its timer is due. \<open>drift\<close>
  is the difference between the reading of the clock when the call completes and the
  instant at which it is due: the clock is read a second time, and a timer can resume
  late or, by about a millisecond against \<^verbatim>\<open>Date.now()\<close>, early. The call returns the
  reading at which it completes, which is the one stored in \<open>lastCall\<close>, and the updated
  limiter.
\<close>

record RateLimiter =
  lastCall :: int
  delay :: int

definition new_RateLimiter :: "int \<Rightarrow> RateLimiter" where
  "new_RateLimiter delayMs = \<lparr> lastCall = 0, delay = delayMs \<rparr>"

definition wait :: "RateLimiter \<Rightarrow> int \<Rightarrow> int \<Rightarrow> int \<times> RateLimiter" where
  "wait rl now drift =
     (let timeSinceLastCall = now - lastCall rl;
          due =
            (if timeSinceLastCall < delay rl
             then (let waitTime = delay rl - timeSinceLastCall in now + setTimeout_delay waitTime)
             else now);
          released = due + drift
      in (released, rl \<lparr> lastCall := released \<rparr>))"

section \<open>Errors and HTTP responses\<close>

text \<open>
  What a \<^verbatim>\<open>catch\<close> clause can receive. \<open>NetworkError\<close> is a rejected \<^verbatim>\<open>fetch\<close> (or a
  body that does not parse), \<open>ApiError\<close> the \<^verbatim>\<open>Error\<close> a client throws for a response
  that is not ok, with the name of the service and the status. The last three are raised
  by the store: a unique key that is absent from a query, a duplicate value of a unique
  column, and any other failure of the call.
\<close>

datatype error =
    NetworkError string
  | ApiError string nat
  | TypeError string
  | ValidationError string
  | UniqueConstraint string
  | StoreError string

text \<open>One answer to a \<^verbatim>\<open>fetch\<close>: a rejection, or a status with the parsed JSON body.\<close>

datatype 'b http = Rejected string | Response nat 'b

definition response_ok :: "nat \<Rightarrow> bool" where
  "response_ok status = (200 \<le> status \<and> status \<le> 299)"

section \<open>Strings\<close>

text \<open>\<^verbatim>\<open>toLowerCase\<close> on ASCII letters, and \<^verbatim>\<open>haystack.includes(needle)\<close>.\<close>

definition toLowerCase :: "string \<Rightarrow> string" where
  "toLowerCase s =
     map (\<lambda>c. case map_of (zip ''ABCDEFGHIJKLMNOPQRSTUVWXYZ'' ''abcdefghijklmnopqrstuvwxyz'') c of
                 None \<Rightarrow> c
               | Some l \<Rightarrow> l) s"

fun str_includes :: "string \<Rightarrow> string \<Rightarrow> bool" where
  "str_includes [] needle = (needle = [])"
| "str_includes (c # cs) needle = (prefix needle (c # cs) \<or> str_includes cs needle)"

section \<open>DefiLlamaClient\<close>

record yield_pool =
  yp_chain :: "string option"
  yp_pool :: "string option"
  yp_symbol :: "string option"
  yp_project :: "string option"
  yp_apy :: "rat option"
  yp_tvlUsd :: "rat option"

record apy_data =
  ad_apy :: "rat option"
  ad_symbol :: "string option"
  ad_project :: "string option"
  ad_chain :: "string option"
  ad_poolId :: "string option"
  ad_tvl :: "rat option"
  ad_url :: string

text \<open>
  One attempt of \<^verbatim>\<open>getAllPools\<close>; the body of the response is the \<^verbatim>\<open>data\<close> field of
  the JSON document, \<open>None\<close> when the document has none.
\<close>

definition getAllPools_attempt :: "yield_pool list option http \<Rightarrow> error + yield_pool list" where
  "getAllPools_attempt r =
     (case r of
        Rejected msg \<Rightarrow> Inl (NetworkError msg)
      | Response status body \<Rightarrow>
          if \<not> response_ok status then Inl (ApiError ''DefiLlama'' status)
          else Inr (case body of None \<Rightarrow> [] | Some ps \<Rightarrow> ps))"

definition getAllPools ::
  "(nat \<Rightarrow> yield_pool list option http) \<Rightarrow> error + yield_pool list option" where
  "getAllPools responses = snd (withBackoff (\<lambda>k. getAllPools_attempt (responses k)) 3)"

definition matchesMint :: "string \<Rightarrow> string \<Rightarrow> yield_pool \<Rightarrow> bool" where
  "matchesMint mintAddress chain p =
     (if yp_chain p \<noteq> Some chain then False
      else
        (let poolKey = (case yp_pool p of None \<Rightarrow> [] | Some s \<Rightarrow> toLowerCase s);
             symbol = (case yp_symbol p of None \<Rightarrow> [] | Some s \<Rightarrow> toLowerCase s);
             project = (case yp_project p of None \<Rightarrow> [] | Some s \<Rightarrow> toLowerCase s);
             mintLower = toLowerCase mintAddress
         in str_includes poolKey mintLower \<or>
            str_includes symbol mintLower \<or>
            str_includes project mintLower))"

definition searchPools ::
  "(nat \<Rightarrow> yield_pool list option http) \<Rightarrow> string \<Rightarrow> string \<Rightarrow> error + yield_pool list" where
  "searchPools responses mintAddress chain =
     (case getAllPools responses of
        Inl e \<Rightarrow> Inl e
      | Inr None \<Rightarrow> Inl (TypeError ''pools is undefined'')
      | Inr (Some pools) \<Rightarrow> Inr (filter (matchesMint mintAddress chain) pools))"

text \<open>The callback of \<^verbatim>\<open>matchingPools.reduce(..., null)\<close>.\<close>

definition betterApy :: "yield_pool option \<Rightarrow> yield_pool \<Rightarrow> yield_pool option" where
  "betterApy best current =
     (let currentApy = or_num (yp_apy current) 0;
          bestApy = (case best of None \<Rightarrow> 0 | Some b \<Rightarrow> or_num (yp_apy b) 0)
      in if currentApy > bestApy then Some current else best)"

text \<open>The \<^verbatim>\<open>catch\<close> clause logs the error and throws it again.\<close>

definition getBestApyForMint ::
  "(nat \<Rightarrow> yield_pool list option http) \<Rightarrow> string \<Rightarrow> error + apy_data option" where
  "getBestApyForMint responses mintAddress =
     (case searchPools responses mintAddress ''Solana'' of
        Inl e \<Rightarrow> Inl e
      | Inr matchingPools \<Rightarrow>
          if length matchingPools = 0 then Inr None
          else
            (case foldl betterApy None matchingPools of
               None \<Rightarrow> Inr None
             | Some bestPool \<Rightarrow>
                 Inr (Some \<lparr> ad_apy = yp_apy bestPool,
                             ad_symbol = yp_symbol bestPool,
                             ad_project = yp_project bestPool,
                             ad_chain = yp_chain bestPool,
                             ad_poolId = yp_pool bestPool,
                             ad_tvl = yp_tvlUsd bestPool,
                             ad_url = ''https://defillama.com/yields/pool/'' @
                                      (case yp_pool bestPool of None \<Rightarrow> ''undefined'' | Some s \<Rightarrow> s) \<rparr>)))"

section \<open>JupiterClient\<close>

record jup_token =
  jt_id :: "string option"
  jt_symbol :: "string option"
  jt_name :: "string option"
  jt_decimals :: "rat option"
  jt_usdPrice :: "rat option"
  jt_icon :: "string option"
  jt_tags :: "string list option"
  jt_isVerified :: "bool option"
  jt_mcap :: "rat option"
  jt_fdv :: "rat option"
  jt_liquidity :: "rat option"
  jt_holderCount :: "rat option"
  jt_totalSupply :: "rat option"
  jt_circSupply :: "rat option"
  jt_website :: "string option"
  jt_twitter :: "string option"
  jt_telegram :: "string option"

record token_data =
  td_mintAddress :: "string option"
  td_symbol :: string
  td_name :: string
  td_decimals :: rat
  td_price :: rat
  td_logoURI :: "string option"
  td_tags :: "string list"
  td_verified :: bool
  td_marketCap :: rat
  td_fdv :: rat
  td_liquidity :: rat
  td_holderCount :: rat
  td_totalSupply :: rat
  td_circSupply :: rat
  td_website :: "string option"
  td_twitter :: "string option"
  td_telegram :: "string option"

text \<open>
  One attempt of \<^verbatim>\<open>getTokenInfo\<close>; the body is the array the search answers with. A
  status of 404 returns \<^verbatim>\<open>null\<close> without a retry.
\<close>

definition getTokenInfo_attempt :: "string \<Rightarrow> jup_token list http \<Rightarrow> error + jup_token option" where
  "getTokenInfo_attempt mintAddress r =
     (case r of
        Rejected msg \<Rightarrow> Inl (NetworkError msg)
      | Response status data \<Rightarrow>
          if \<not> response_ok status then
            (if status = 404 then Inr None else Inl (ApiError ''Jupiter'' status))
          else
            (case find (\<lambda>token. jt_id token = Some mintAddress) data of
               Some exactMatch \<Rightarrow> Inr (Some exactMatch)
             | None \<Rightarrow> Inr (case data of [] \<Rightarrow> None | first # _ \<Rightarrow> Some first)))"

definition getTokenInfo ::
  "(nat \<Rightarrow> jup_token list http) \<Rightarrow> string \<Rightarrow> error + jup_token option option" where
  "getTokenInfo responses mintAddress =
     snd (withBackoff (\<lambda>k. getTokenInfo_attempt mintAddress (responses k)) 3)"

text \<open>The \<^verbatim>\<open>catch\<close> clause logs the error and returns \<^verbatim>\<open>null\<close>.\<close>

definition getFullTokenData :: "(nat \<Rightarrow> jup_token list http) \<Rightarrow> string \<Rightarrow> token_data option" where
  "getFullTokenData responses mintAddress =
     (case getTokenInfo responses mintAddress of
        Inl e \<Rightarrow> None
      | Inr None \<Rightarrow> None
      | Inr (Some None) \<Rightarrow> None
      | Inr (Some (Some tokenInfo)) \<Rightarrow>
          Some \<lparr> td_mintAddress = jt_id tokenInfo,
                 td_symbol = or_str (jt_symbol tokenInfo) ''Unknown'',
                 td_name = or_str (jt_name tokenInfo) ''Unknown Token'',
                 td_decimals = or_num (jt_decimals tokenInfo) 9,
                 td_price = or_num (jt_usdPrice tokenInfo) 0,
                 td_logoURI = js_or (jt_icon tokenInfo) None,
                 td_tags = (case jt_tags tokenInfo of None \<Rightarrow> [] | Some tags \<Rightarrow> tags),
                 td_verified = (case jt_isVerified tokenInfo of None \<Rightarrow> False | Some b \<Rightarrow> b),
                 td_marketCap = or_num (jt_mcap tokenInfo) 0,
                 td_fdv = or_num (jt_fdv tokenInfo) 0,
                 td_liquidity = or_num (jt_liquidity tokenInfo) 0,
                 td_holderCount = or_num (jt_holderCount tokenInfo) 0,
                 td_totalSupply = or_num (jt_totalSupply tokenInfo) 0,
                 td_circSupply = or_num (jt_circSupply tokenInfo) 0,
                 td_website = js_or (jt_website tokenInfo) None,
                 td_twitter = js_or (jt_twitter tokenInfo) None,
                 td_telegram = js_or (jt_telegram tokenInfo) None \<rparr>)"

section \<open>DatabaseClient\<close>

text \<open>
  The store holds the pool rows and the event rows in insertion order. The schema is
  not part of the sources; it is taken from the data model of the specification: a pool
  row is unique on \<open>poolAddress\<close> and on \<open>signature\<close>, an event row on \<open>signature\<close>.
\<close>

record raw_data =
  rd_tokenA :: string
  rd_tokenB :: string
  rd_source :: string
  rd_tokenAInfo :: "token_data option"
  rd_tokenBInfo :: "token_data option"

record pool_data =
  pd_tokenA :: string
  pd_tokenB :: string
  pd_poolAddress :: "string option"
  pd_signature :: "string option"
  pd_source :: "string option"
  pd_apy :: "rat option"
  pd_tvl :: "rat option"
  pd_volume24h :: "rat option"

record pool_row =
  pool_id :: nat
  pool_tokenA :: string
  pool_tokenB :: string
  pool_poolAddress :: "string option"
  pool_source :: string
  pool_signature :: "string option"
  pool_apy :: "rat option"
  pool_tvl :: "rat option"
  pool_volume24h :: "rat option"

record event_data =
  ed_poolId :: nat
  ed_signature :: "string option"
  ed_eventType :: "string option"
  ed_amount :: "rat option"
  ed_rawData :: "raw_data option"

record event_row =
  event_id :: nat
  event_poolId :: nat
  event_eventType :: string
  event_amount :: "rat option"
  event_signature :: "string option"
  event_rawData :: "raw_data option"

record database =
  pools :: "pool_row list"
  events :: "event_row list"

datatype store_call = FindPool | CreatePool | CreateEvent

text \<open>
  What the outside world does during one call of \<^verbatim>\<open>savePoolToDatabase\<close>: the clock
  reading when the rate limiter is entered and the drift of its completion, the answers of
  DefiLlama (by call of \<^verbatim>\<open>getAllPools\<close> and attempt) and of Jupiter (by queried mint and
  attempt), and whether the store fails a call for a reason of its own (connection,
  validation against the schema).
\<close>

record world =
  clock :: int
  clockDrift :: int
  llamaResponses :: "nat \<Rightarrow> nat \<Rightarrow> yield_pool list option http"
  jupiterResponses :: "string \<Rightarrow> nat \<Rightarrow> jup_token list http"
  storeFails :: "store_call \<Rightarrow> bool"

text \<open>
  Modelled from the spec: \<^verbatim>\<open>prisma.pool.findUnique\<close> of the generated client, which is
  not in the sources. A lookup by a unique key that is absent is rejected; otherwise the
  row with that pool address is returned, if there is one.
\<close>

definition pool_findUnique :: "world \<Rightarrow> database \<Rightarrow> string option \<Rightarrow> error + pool_row option" where
  "pool_findUnique w d key =
     (if storeFails w FindPool then Inl (StoreError ''findUnique'')
      else
        (case key of
           None \<Rightarrow> Inl (ValidationError ''poolAddress'')
         | Some a \<Rightarrow> Inr (find (\<lambda>p. pool_poolAddress p = Some a) (pools d))))"

text \<open>
  Modelled from the spec: \<^verbatim>\<open>prisma.pool.create\<close>, with the pool table unique on
  \<open>poolAddress\<close> and on \<open>signature\<close>. A row whose unique value is already stored is
  rejected; otherwise the row is appended under the next identifier.
\<close>

definition pool_create :: "world \<Rightarrow> database \<Rightarrow> pool_row \<Rightarrow> error + pool_row \<times> database" where
  "pool_create w d data =
     (if storeFails w CreatePool then Inl (StoreError ''create'')
      else if pool_poolAddress data = None then Inl (ValidationError ''poolAddress'')
      else if pool_poolAddress data \<in> set (map pool_poolAddress (pools d))
        then Inl (UniqueConstraint ''poolAddress'')
      else if pool_signature data \<noteq> None \<and>
              pool_signature data \<in> set (map pool_signature (pools d))
        then Inl (UniqueConstraint ''signature'')
      else
        (let row = data \<lparr> pool_id := Suc (length (pools d)) \<rparr>
         in Inr (row, d \<lparr> pools := pools d @ [row] \<rparr>)))"

text \<open>
  Modelled from the spec: \<^verbatim>\<open>prisma.poolEvent.create\<close>, with the event table unique on
  \<open>signature\<close>.
\<close>

definition poolEvent_create :: "world \<Rightarrow> database \<Rightarrow> event_row \<Rightarrow> error + event_row \<times> database" where
  "poolEvent_create w d data =
     (if storeFails w CreateEvent then Inl (StoreError ''create'')
      else if event_signature data \<noteq> None \<and>
              event_signature data \<in> set (map event_signature (events d))
        then Inl (UniqueConstraint ''signature'')
      else
        (let row = data \<lparr> event_id := Suc (length (events d)) \<rparr>
         in Inr (row, d \<lparr> events := events d @ [row] \<rparr>)))"

text \<open>
  Modelled from the spec: \<^verbatim>\<open>prisma.pool.findMany\<close> with
  \<^verbatim>\<open>where: {apy: {not: null}}\<close>, \<^verbatim>\<open>orderBy: {apy: 'desc'}\<close> and \<^verbatim>\<open>take\<close>.
\<close>

definition pool_findMany_apy :: "database \<Rightarrow> nat \<Rightarrow> pool_row list" where
  "pool_findMany_apy d limit =
     take limit
       (sort_key (\<lambda>p. case pool_apy p of None \<Rightarrow> 0 | Some a \<Rightarrow> - a)
          (filter (\<lambda>p. pool_apy p \<noteq> None) (pools d)))"

definition poolExists :: "world \<Rightarrow> database \<Rightarrow> string option \<Rightarrow> error + bool" where
  "poolExists w d address =
     (case pool_findUnique w d address of
        Inl e \<Rightarrow> Inl e
      | Inr existingPool \<Rightarrow> Inr (existingPool \<noteq> None))"

text \<open>The \<^verbatim>\<open>catch\<close> clauses of \<^verbatim>\<open>storePool\<close> and \<^verbatim>\<open>storeEvent\<close> log and throw again.\<close>

definition storePool :: "world \<Rightarrow> database \<Rightarrow> pool_data \<Rightarrow> error + pool_row \<times> database" where
  "storePool w d poolData =
     pool_create w d
       \<lparr> pool_id = 0,
         pool_tokenA = pd_tokenA poolData,
         pool_tokenB = pd_tokenB poolData,
         pool_poolAddress = pd_poolAddress poolData,
         pool_source = or_str (pd_source poolData) ''Unknown'',
         pool_signature = pd_signature poolData,
         pool_apy = or_null (pd_apy poolData),
         pool_tvl = or_null (pd_tvl poolData),
         pool_volume24h = or_null (pd_volume24h poolData) \<rparr>"

definition storeEvent :: "world \<Rightarrow> database \<Rightarrow> event_data \<Rightarrow> error + event_row \<times> database" where
  "storeEvent w d eventData =
     poolEvent_create w d
       \<lparr> event_id = 0,
         event_poolId = ed_poolId eventData,
         event_eventType = or_str (ed_eventType eventData) ''created'',
         event_amount = or_null (ed_amount eventData),
         event_signature = ed_signature eventData,
         event_rawData = ed_rawData eventData \<rparr>"

definition getPoolsWithApy :: "database \<Rightarrow> nat \<Rightarrow> pool_row list" where
  "getPoolsWithApy d limit = pool_findMany_apy d limit"

section \<open>WebhookHandler\<close>

record handler_state =
  databaseClient :: database
  rateLimiter :: RateLimiter

text \<open>
  \<^verbatim>\<open>savePoolToDatabase\<close>: the saved row or \<^verbatim>\<open>null\<close>, with the state afterwards. Every
  error raised inside is caught by the one \<^verbatim>\<open>catch\<close> clause, which returns \<^verbatim>\<open>null\<close>.
  The raw data of the event is kept as the object that is serialised.
\<close>

definition savePoolToDatabase ::
  "world \<Rightarrow> handler_state \<Rightarrow> pool_candidate \<Rightarrow> pool_row option \<times> handler_state" where
  "savePoolToDatabase w st poolData =
     (case poolExists w (databaseClient st) (poolAddress poolData) of
        Inl e \<Rightarrow> (None, st)
      | Inr True \<Rightarrow> (None, st)
      | Inr False \<Rightarrow>
          (let st1 = st \<lparr> rateLimiter := snd (wait (rateLimiter st) (clock w) (clockDrift w)) \<rparr>
           in case getBestApyForMint (llamaResponses w 0) (tokenA poolData) of
                Inl e \<Rightarrow> (None, st1)
              | Inr apyDataA \<Rightarrow>
                  (case (if apyDataA = None
                         then getBestApyForMint (llamaResponses w 1) (tokenB poolData)
                         else Inr apyDataA) of
                     Inl e \<Rightarrow> (None, st1)
                   | Inr apyData \<Rightarrow>
                       (let tokenAInfo =
                              getFullTokenData (jupiterResponses w (tokenA poolData)) (tokenA poolData);
                            tokenBInfo =
                              getFullTokenData (jupiterResponses w (tokenB poolData)) (tokenB poolData);
                            poolToStore =
                              \<lparr> pd_tokenA = tokenA poolData,
                                pd_tokenB = tokenB poolData,
                                pd_poolAddress = poolAddress poolData,
                                pd_signature = signature poolData,
                                pd_source = Some (source poolData),
                                pd_apy = or_null (case apyData of None \<Rightarrow> None | Some a \<Rightarrow> ad_apy a),
                                pd_tvl = or_null (case apyData of None \<Rightarrow> None | Some a \<Rightarrow> ad_tvl a),
                                pd_volume24h = None \<rparr>
                        in case storePool w (databaseClient st1) poolToStore of
                             Inl e \<Rightarrow> (None, st1)
                           | Inr (newPool, d1) \<Rightarrow>
                               (case storeEvent w d1
                                       \<lparr> ed_poolId = pool_id newPool,
                                         ed_signature = signature poolData,
                                         ed_eventType = Some ''created'',
                                         ed_amount = None,
                                         ed_rawData =
                                           Some \<lparr> rd_tokenA = tokenA poolData,
                                                  rd_tokenB = tokenB poolData,
                                                  rd_source = source poolData,
                                                  rd_tokenAInfo = tokenAInfo,
                                                  rd_tokenBInfo = tokenBInfo \<rparr> \<rparr> of
                                  Inl e \<Rightarrow> (None, st1 \<lparr> databaseClient := d1 \<rparr>)
                                | Inr (event, d2) \<Rightarrow> (Some newPool, st1 \<lparr> databaseClient := d2 \<rparr>))))))"

text \<open>
  The loop of \<^verbatim>\<open>processWebhookPayload\<close> over the transactions from position \<open>i\<close> on;
  \<open>ws i\<close> is the world during the processing of the transaction at position \<open>i\<close>.
\<close>

definition acceptedType :: "transaction \<Rightarrow> bool" where
  "acceptedType t = (tx_type t = Some ''ENHANCED_TRANSACTION'' \<or> tx_type t = Some ''CREATE_POOL'')"

fun processTransactions ::
  "(nat \<Rightarrow> world) \<Rightarrow> nat \<Rightarrow> handler_state \<Rightarrow> transaction list \<Rightarrow> handler_state" where
  "processTransactions ws i st [] = st"
| "processTransactions ws i st (t # ts) =
     (if acceptedType t then
        (case parsePoolFromTransaction t of
           Some poolData \<Rightarrow>
             processTransactions ws (Suc i) (snd (savePoolToDatabase (ws i) st poolData)) ts
         | None \<Rightarrow> processTransactions ws (Suc i) st ts)
      else processTransactions ws (Suc i) st ts)"

text \<open>
  The JSON body of a request: an object, read as one transaction notification, or an
  array of them. Iterating over an object with \<^verbatim>\<open>for ... of\<close> raises a TypeError.
\<close>

datatype json_body = JsonObject transaction | JsonArray "transaction list"

definition processWebhookPayload ::
  "(nat \<Rightarrow> world) \<Rightarrow> handler_state \<Rightarrow> json_body \<Rightarrow> error + handler_state" where
  "processWebhookPayload ws st transactions =
     (case transactions of
        JsonObject t \<Rightarrow> Inl (TypeError ''transactions is not iterable'')
      | JsonArray ts \<Rightarrow> Inr (processTransactions ws 0 st ts))"

section \<open>The webhook endpoint\<close>

text \<open>
  \<^verbatim>\<open>POST /webhook/helius\<close> of the modular server: the status sent and the state
  afterwards. When \<^verbatim>\<open>req.body\<close> is undefined (\<open>None\<close>) it is replaced by the empty
  array; an empty object is a body like any other object.
\<close>

definition helius_webhook ::
  "(nat \<Rightarrow> world) \<Rightarrow> handler_state \<Rightarrow> json_body option \<Rightarrow> nat \<times> handler_state" where
  "helius_webhook ws st body =
     (let transactions = (case body of None \<Rightarrow> JsonArray [] | Some b \<Rightarrow> b)
      in case processWebhookPayload ws st transactions of
           Inr st' \<Rightarrow> (200, st')
         | Inl error \<Rightarrow> (500, st))"

text \<open>
  The endpoint of the single-file server wraps a body that is not an array before it
  iterates: \<^verbatim>\<open>Array.isArray(req.body) ? req.body : [req.body]\<close>.
\<close>

definition server_transactions :: "json_body \<Rightarrow> transaction list" where
  "server_transactions body = (case body of JsonArray ts \<Rightarrow> ts | JsonObject t \<Rightarrow> [t])"

subsection \<open>Example worlds and states\<close>

definition quiet_world :: world where
  "quiet_world =
     \<lparr> clock = 1700000000000, clockDrift = 0,
       llamaResponses = (\<lambda>call attempt. Response 200 (Some [])),
       jupiterResponses = (\<lambda>mintAddress attempt. Response 404 []),
       storeFails = (\<lambda>call. False) \<rparr>"

definition llama_down_world :: world where
  "llama_down_world = quiet_world \<lparr> llamaResponses := (\<lambda>call attempt. Response 503 None) \<rparr>"

definition jupiter_down_world :: world where
  "jupiter_down_world =
     quiet_world \<lparr> jupiterResponses := (\<lambda>mintAddress attempt. Rejected ''ECONNRESET'') \<rparr>"

definition empty_state :: handler_state where
  "empty_state =
     \<lparr> databaseClient = \<lparr> pools = [], events = [] \<rparr>, rateLimiter = new_RateLimiter 2000 \<rparr>"

text \<open>The candidate parsed from \<open>tx_two_mints\<close>, and the state after it is saved.\<close>

definition candidate_two_mints :: pool_candidate where
  "candidate_two_mints =
     \<lparr> tokenA = ''MintA'', tokenB = ''MintB'', poolAddress = Some ''Pool'',
       signature = Some ''sig2'', timestamp = Some 1700000000000, source = ''RAYDIUM'' \<rparr>"

definition stored_two_mints :: handler_state where
  "stored_two_mints =
     \<lparr> databaseClient =
         \<lparr> pools = [\<lparr> pool_id = 1, pool_tokenA = ''MintA'', pool_tokenB = ''MintB'',
                      pool_poolAddress = Some ''Pool'', pool_source = ''RAYDIUM'',
                      pool_signature = Some ''sig2'', pool_apy = None, pool_tvl = None,
                      pool_volume24h = None \<rparr>],
           events = [\<lparr> event_id = 1, event_poolId = 1, event_eventType = ''created'',
                       event_amount = None, event_signature = Some ''sig2'',
                       event_rawData =
                         Some \<lparr> rd_tokenA = ''MintA'', rd_tokenB = ''MintB'',
                                rd_source = ''RAYDIUM'', rd_tokenAInfo = None,
                                rd_tokenBInfo = None \<rparr> \<rparr>] \<rparr>,
       rateLimiter = \<lparr> lastCall = 1700000000000, delay = 2000 \<rparr> \<rparr>"

text \<open>A pool whose yield is exactly zero, and the row stored for it.\<close>

definition zero_apy_pool :: pool_data where
  "zero_apy_pool =
     \<lparr> pd_tokenA = ''MintA'', pd_tokenB = ''MintB'', pd_poolAddress = Some ''Pool'',
       pd_signature = Some ''sig2'', pd_source = None, pd_apy = Some 0,
       pd_tvl = Some 1000000, pd_volume24h = None \<rparr>"

definition zero_apy_row :: pool_row where
  "zero_apy_row =
     \<lparr> pool_id = 1, pool_tokenA = ''MintA'', pool_tokenB = ''MintB'',
       pool_poolAddress = Some ''Pool'', pool_source = ''Unknown'',
       pool_signature = Some ''sig2'', pool_apy = None, pool_tvl = Some 1000000,
       pool_volume24h = None \<rparr>"

subsection \<open>Conditions on a submission\<close>

text \<open>
  The pools that a payload yields: the candidates parsed from its transactions of an
  accepted type, in order.
\<close>

definition parsedPools :: "transaction list \<Rightarrow> pool_candidate list" where
  "parsedPools ts = List.map_filter parsePoolFromTransaction (filter acceptedType ts)"

text \<open>
  The conditions under which a call of \<^verbatim>\<open>savePoolToDatabase\<close> reaches the insertion and
  the store takes the row. The store does not fail the lookup or the insertion for a
  reason of its own; the yield lookups that are made return, with data or with
  \<^verbatim>\<open>null\<close>; the candidate has a pool address and a signature, and every stored row with
  that signature has that pool address.
\<close>

definition storeAccepts :: "world \<Rightarrow> bool" where
  "storeAccepts w = (\<not> storeFails w FindPool \<and> \<not> storeFails w CreatePool)"

definition yieldLookupsReturn :: "world \<Rightarrow> pool_candidate \<Rightarrow> bool" where
  "yieldLookupsReturn w c =
     (case getBestApyForMint (llamaResponses w 0) (tokenA c) of
        Inl e \<Rightarrow> False
      | Inr None \<Rightarrow> \<not> isl (getBestApyForMint (llamaResponses w 1) (tokenB c))
      | Inr (Some apyData) \<Rightarrow> True)"

definition insertable :: "database \<Rightarrow> pool_candidate \<Rightarrow> bool" where
  "insertable d c =
     (poolAddress c \<noteq> None \<and> signature c \<noteq> None \<and>
      (\<forall>p \<in> set (pools d). pool_signature p = signature c \<longrightarrow>
         pool_poolAddress p = poolAddress c))"

text \<open>
  A world whose store rejects every insertion of a pool, and the states that two
  submissions under it, and a later submission under \<open>quiet_world\<close>, leave behind.
\<close>

definition store_down_world :: world where
  "store_down_world = quiet_world \<lparr> storeFails := (\<lambda>call. call = CreatePool) \<rparr>"

definition unsaved_once :: handler_state where
  "unsaved_once =
     \<lparr> databaseClient = \<lparr> pools = [], events = [] \<rparr>,
       rateLimiter = \<lparr> lastCall = 1700000000000, delay = 2000 \<rparr> \<rparr>"

definition unsaved_twice :: handler_state where
  "unsaved_twice =
     \<lparr> databaseClient = \<lparr> pools = [], events = [] \<rparr>,
       rateLimiter = \<lparr> lastCall = 1700000002000, delay = 2000 \<rparr> \<rparr>"

definition stored_late :: handler_state where
  "stored_late = stored_two_mints \<lparr> rateLimiter := \<lparr> lastCall = 1700000002000, delay = 2000 \<rparr> \<rparr>"

section \<open>Properties of the insertion-ordered set\<close>

lemma set_set_add_all: "set (set_add_all seen xs) = set seen \<union> set xs"
  by (induction xs arbitrary: seen) auto

lemma distinct_set_add_all: "distinct seen \<Longrightarrow> distinct (set_add_all seen xs)"
  by (induction xs arbitrary: seen) auto

lemma set_add_all_keeps_prefix: "\<exists>ys. set_add_all seen xs = seen @ ys"
proof (induction xs arbitrary: seen)
  case Nil
  show ?case by simp
next
  case (Cons x xs)
  obtain ys where "set_add_all (if x \<in> set seen then seen else seen @ [x]) xs
      = (if x \<in> set seen then seen else seen @ [x]) @ ys"
    using Cons.IH by blast
  then show ?case by (cases "x \<in> set seen") auto
qed

lemma length_new_Set: "length (new_Set xs) = card (set xs)"
proof -
  have "distinct (new_Set xs)"
    by (simp add: new_Set_def distinct_set_add_all)
  moreover have "set (new_Set xs) = set xs"
    by (simp add: new_Set_def set_set_add_all)
  ultimately show ?thesis
    by (metis distinct_card)
qed

lemma set_add_all_second:
  "set_add_all [a] xs = a # b # rest \<Longrightarrow> find (\<lambda>m. m \<noteq> a) xs = Some b"
proof (induction xs)
  case Nil
  then show ?case by simp
next
  case (Cons x xs)
  show ?case
  proof (cases "x = a")
    case True
    with Cons show ?thesis by simp
  next
    case False
    obtain ys where "set_add_all [a, x] xs = [a, x] @ ys"
      using set_add_all_keeps_prefix [of "[a, x]" xs] by blast
    with Cons.prems False show ?thesis by simp
  qed
qed

lemma new_Set_first_two:
  assumes "new_Set xs = a # b # rest"
  shows "find (\<lambda>m. True) xs = Some a \<and> find (\<lambda>m. m \<noteq> a) xs = Some b"
proof (cases xs)
  case Nil
  with assms show ?thesis by (simp add: new_Set_def)
next
  case (Cons x xs')
  obtain ys where ys: "set_add_all [x] xs' = [x] @ ys"
    using set_add_all_keeps_prefix [of "[x]" xs'] by blast
  with assms Cons have xa: "x = a" by (simp add: new_Set_def)
  with assms Cons have "set_add_all [a] xs' = a # b # rest" by (simp add: new_Set_def)
  then have "find (\<lambda>m. m \<noteq> a) xs' = Some b" by (rule set_add_all_second)
  with Cons xa show ?thesis by simp
qed

lemma keptMint_Some_iff:
  "keptMint tr = Some m \<longleftrightarrow> mint tr = Some m \<and> m \<noteq> [] \<and> m \<noteq> SOL_MINT"
  by (cases "mint tr") (auto simp: keptMint_def)

lemma set_map_filter: "set (List.map_filter f xs) = {y. \<exists>x \<in> set xs. f x = Some y}"
proof (induction xs)
  case Nil
  show ?case by (simp add:)
next
  case (Cons x xs)
  then show ?case by (cases "f x") (auto simp:)
qed

lemma set_map_filter_keptMint: "set (List.map_filter keptMint trs) = nonNativeMints trs"
  by (simp add: set_map_filter nonNativeMints_def keptMint_Some_iff)

lemma length_tokenMintsOf: "length (tokenMintsOf trs) = card (nonNativeMints trs)"
  by (simp add: tokenMintsOf_def length_new_Set set_map_filter_keptMint)

lemma length_map_filter_le: "length (List.map_filter f xs) \<le> length xs"
  by (simp add: List.map_filter_def)

lemma card_nonNativeMints_le: "card (nonNativeMints trs) \<le> length trs"
proof -
  have "card (set (List.map_filter keptMint trs)) \<le> length (List.map_filter keptMint trs)"
    by (rule card_length)
  then show ?thesis
    using length_map_filter_le [of keptMint trs] by (simp add: set_map_filter_keptMint)
qed

lemma find_map_filter_index:
  "find P (List.map_filter f xs) = Some y \<Longrightarrow>
     \<exists>i<length xs. f (xs ! i) = Some y \<and> P y \<and> (\<forall>k<i. \<forall>z. f (xs ! k) = Some z \<longrightarrow> \<not> P z)"
proof (induction xs)
  case Nil
  then show ?case by simp
next
  case (Cons x xs)
  show ?case
  proof (cases "\<exists>z. f x = Some z \<and> P z")
    case True
    with Cons.prems have "f x = Some y \<and> P y" by auto
    then have "f ((x # xs) ! 0) = Some y \<and> P y \<and>
        (\<forall>k<0. \<forall>z. f ((x # xs) ! k) = Some z \<longrightarrow> \<not> P z)" by simp
    then show ?thesis by blast
  next
    case False
    with Cons.prems have "find P (List.map_filter f xs) = Some y"
      by (cases "f x") auto
    then obtain i where i: "i < length xs" "f (xs ! i) = Some y" "P y"
        "\<forall>k<i. \<forall>z. f (xs ! k) = Some z \<longrightarrow> \<not> P z"
      using Cons.IH by blast
    have "\<forall>k<Suc i. \<forall>z. f ((x # xs) ! k) = Some z \<longrightarrow> \<not> P z"
    proof (intro allI impI)
      fix k z
      assume "k < Suc i" and "f ((x # xs) ! k) = Some z"
      then show "\<not> P z" using False i(4) by (cases k) auto
    qed
    with i have "Suc i < length (x # xs) \<and> f ((x # xs) ! Suc i) = Some y \<and> P y \<and>
        (\<forall>k<Suc i. \<forall>z. f ((x # xs) ! k) = Some z \<longrightarrow> \<not> P z)" by simp
    then show ?thesis by blast
  qed
qed

lemma keptMint_None_iff: "keptMint tr = None \<longleftrightarrow> \<not> nonNative tr"
  by (cases "mint tr") (auto simp: keptMint_def nonNative_def)

lemma keptMint_Some_nonNative: "keptMint tr = Some m \<longleftrightarrow> mint tr = Some m \<and> nonNative tr"
  by (cases "mint tr") (auto simp: keptMint_def nonNative_def)

section \<open>The parser\<close>

text \<open>
  Claim C1. When \<^verbatim>\<open>tokenTransfers\<close> is absent or has fewer than two entries, or when
  the transfers carry fewer than two distinct non-native mint identifiers,
  \<^verbatim>\<open>parsePoolFromTransaction\<close> returns \<^verbatim>\<open>null\<close>; it has no throwing outcome.
\<close>

theorem parse_null_on_insufficient_mints:
  assumes "tokenTransfers t = None \<or>
           (\<exists>trs. tokenTransfers t = Some trs \<and> (length trs < 2 \<or> card (nonNativeMints trs) < 2))"
  shows "parsePoolFromTransaction t = None"
proof (cases "tokenTransfers t")
  case None
  then show ?thesis by (simp add: parsePoolFromTransaction_def)
next
  case (Some trs)
  with assms have "length trs < 2 \<or> length (tokenMintsOf trs) < 2"
    by (simp add: length_tokenMintsOf)
  then show ?thesis
  proof
    assume "length trs < 2"
    with Some show ?thesis by (simp add: parsePoolFromTransaction_def)
  next
    assume "length (tokenMintsOf trs) < 2"
    then have "\<forall>a b rest. tokenMintsOf trs \<noteq> a # b # rest"
      by auto
    with Some show ?thesis
      by (simp add: parsePoolFromTransaction_def split: list.splits)
  qed
qed

theorem parse_null_on_insufficient_mints_witness:
  "tokenTransfers tx_one_mint =
     Some [\<lparr>mint = Some ''MintA''\<rparr>, \<lparr>mint = Some SOL_MINT\<rparr>, \<lparr>mint = Some ''MintA''\<rparr>] \<and>
   card (nonNativeMints [\<lparr>mint = Some ''MintA''\<rparr>, \<lparr>mint = Some SOL_MINT\<rparr>,
                         \<lparr>mint = Some ''MintA''\<rparr>]) < 2 \<and>
   parsePoolFromTransaction tx_one_mint = None"
proof -
  have c: "card (nonNativeMints [\<lparr>mint = Some ''MintA''\<rparr>, \<lparr>mint = Some SOL_MINT\<rparr>,
                         \<lparr>mint = Some ''MintA''\<rparr>]) < 2"
    unfolding length_tokenMintsOf [symmetric]
    by (simp add: tokenMintsOf_def new_Set_def keptMint_def SOL_MINT_def)
  have t: "tokenTransfers tx_one_mint =
     Some [\<lparr>mint = Some ''MintA''\<rparr>, \<lparr>mint = Some SOL_MINT\<rparr>, \<lparr>mint = Some ''MintA''\<rparr>]"
    by (simp add: tx_one_mint_def)
  show ?thesis using parse_null_on_insufficient_mints [of tx_one_mint] c t by simp
qed

text \<open>
  Claim C2. With at least two distinct non-native mint identifiers among the transfers,
  the parser returns a candidate; \<open>tokenA\<close> is the mint of the first transfer that
  carries a non-native mint, \<open>tokenB\<close> is the mint of the first transfer that carries
  a non-native mint other than \<open>tokenA\<close>, and the two differ.
\<close>

theorem parse_first_two_distinct_mints:
  assumes "tokenTransfers t = Some trs" and "2 \<le> card (nonNativeMints trs)"
  shows "\<exists>c i j. parsePoolFromTransaction t = Some c \<and> tokenA c \<noteq> tokenB c \<and>
           i < j \<and> j < length trs \<and>
           mint (trs ! i) = Some (tokenA c) \<and> nonNative (trs ! i) \<and>
           (\<forall>k<i. \<not> nonNative (trs ! k)) \<and>
           mint (trs ! j) = Some (tokenB c) \<and> nonNative (trs ! j) \<and>
           (\<forall>k<j. nonNative (trs ! k) \<longrightarrow> mint (trs ! k) = Some (tokenA c))"
proof -
  let ?ms = "List.map_filter keptMint trs"
  have len: "2 \<le> length trs"
    using assms(2) card_nonNativeMints_le [of trs] by simp
  have "2 \<le> length (tokenMintsOf trs)"
    using assms(2) by (simp add: length_tokenMintsOf)
  then obtain a b rest where abr: "tokenMintsOf trs = a # b # rest"
    by (cases "tokenMintsOf trs" rule: list.exhaust; simp; rename_tac x xs; case_tac xs; simp)
  then obtain c where c: "parsePoolFromTransaction t = Some c" "tokenA c = a" "tokenB c = b"
    using assms(1) len by (simp add: parsePoolFromTransaction_def)
  from abr have ff: "find (\<lambda>m. True) ?ms = Some a" "find (\<lambda>m. m \<noteq> a) ?ms = Some b"
    using new_Set_first_two [of ?ms a b rest] by (simp_all add: tokenMintsOf_def)
  from find_map_filter_index [OF ff(1)] obtain i where
    i: "i < length trs" "keptMint (trs ! i) = Some a"
       "\<forall>k<i. \<forall>z. keptMint (trs ! k) = Some z \<longrightarrow> False" by auto
  from find_map_filter_index [OF ff(2)] obtain j where
    j: "j < length trs" "keptMint (trs ! j) = Some b" "b \<noteq> a"
       "\<forall>k<j. \<forall>z. keptMint (trs ! k) = Some z \<longrightarrow> \<not> z \<noteq> a" by auto
  have "i \<noteq> j" using i(2) j(2) j(3) by auto
  moreover have "\<not> j < i" using i(3) j(2) by blast
  ultimately have ij: "i < j" by linarith
  have ni: "\<forall>k<i. \<not> nonNative (trs ! k)"
  proof (intro allI impI)
    fix k assume "k < i"
    then have "keptMint (trs ! k) = None" using i(3) by (cases "keptMint (trs ! k)") auto
    then show "\<not> nonNative (trs ! k)" by (simp add: keptMint_None_iff)
  qed
  have nj: "\<forall>k<j. nonNative (trs ! k) \<longrightarrow> mint (trs ! k) = Some a"
  proof (intro allI impI)
    fix k assume k: "k < j" and nn: "nonNative (trs ! k)"
    then obtain z where z: "keptMint (trs ! k) = Some z"
      using keptMint_None_iff [of "trs ! k"] by (cases "keptMint (trs ! k)") auto
    with k j(4) have "z = a" by blast
    with z show "mint (trs ! k) = Some a" by (simp add: keptMint_Some_nonNative)
  qed
  from i(2) j(2) have "mint (trs ! i) = Some a" "nonNative (trs ! i)"
      "mint (trs ! j) = Some b" "nonNative (trs ! j)"
    by (simp_all add: keptMint_Some_nonNative)
  with c ij j(1) j(3) ni nj show ?thesis by auto
qed

theorem parse_first_two_distinct_mints_witness:
  "tokenTransfers tx_two_mints =
     Some [\<lparr>mint = Some SOL_MINT\<rparr>, \<lparr>mint = Some ''MintA''\<rparr>,
           \<lparr>mint = Some ''MintA''\<rparr>, \<lparr>mint = Some ''MintB''\<rparr>] \<and>
   2 \<le> card (nonNativeMints [\<lparr>mint = Some SOL_MINT\<rparr>, \<lparr>mint = Some ''MintA''\<rparr>,
                              \<lparr>mint = Some ''MintA''\<rparr>, \<lparr>mint = Some ''MintB''\<rparr>]) \<and>
   (\<exists>c. parsePoolFromTransaction tx_two_mints = Some c \<and> tokenA c \<noteq> tokenB c)"
proof -
  have c: "2 \<le> card (nonNativeMints [\<lparr>mint = Some SOL_MINT\<rparr>, \<lparr>mint = Some ''MintA''\<rparr>,
                              \<lparr>mint = Some ''MintA''\<rparr>, \<lparr>mint = Some ''MintB''\<rparr>])"
    unfolding length_tokenMintsOf [symmetric]
    by (simp add: tokenMintsOf_def new_Set_def keptMint_def SOL_MINT_def)
  have t: "tokenTransfers tx_two_mints =
     Some [\<lparr>mint = Some SOL_MINT\<rparr>, \<lparr>mint = Some ''MintA''\<rparr>,
           \<lparr>mint = Some ''MintA''\<rparr>, \<lparr>mint = Some ''MintB''\<rparr>]"
    by (simp add: tx_two_mints_def)
  from parse_first_two_distinct_mints [OF t c] show ?thesis using c t by blast
qed

lemma set_tokenMintsOf: "set (tokenMintsOf trs) = nonNativeMints trs"
  by (simp add: tokenMintsOf_def new_Set_def set_set_add_all set_map_filter_keptMint)

lemma poolAccountEntry_iff:
  "poolAccountEntry t (tokenMintsOf trs) e \<longleftrightarrow> (\<exists>x. account e = Some x \<and> selectable t trs x)"
  by (cases "account e") (auto simp: poolAccountEntry_def selectable_def set_tokenMintsOf)

lemma parse_SomeD:
  assumes "parsePoolFromTransaction t = Some c"
  shows "\<exists>trs. tokenTransfers t = Some trs \<and>
           poolAddress c = js_or (findPoolAddress t (tokenMintsOf trs)) (tx_signature t)"
proof (cases "tokenTransfers t")
  case None
  with assms show ?thesis by (simp add: parsePoolFromTransaction_def)
next
  case (Some trs)
  with assms show ?thesis
    by (auto simp: parsePoolFromTransaction_def split: if_splits list.splits)
qed

text \<open>
  Claim C3, as the code has it. For a parsed transaction the pool address is the account
  of the first \<^verbatim>\<open>accountData\<close> entry whose account is present, not empty, not the fee
  payer, not any of the distinct non-native mints of the transfers (all of them, not
  only \<open>tokenA\<close> and \<open>tokenB\<close>), not the native mint and not one of the four program
  identifiers; when no entry qualifies, or \<^verbatim>\<open>accountData\<close> is absent, it is the
  transaction signature.
\<close>

theorem poolAddress_first_selectable_account:
  assumes "parsePoolFromTransaction t = Some c"
  shows "\<exists>trs. tokenTransfers t = Some trs \<and>
     ((\<exists>es i a. accountData t = Some es \<and> i < length es \<and> account (es ! i) = Some a \<and>
          selectable t trs a \<and>
          (\<forall>k<i. \<forall>x. account (es ! k) = Some x \<longrightarrow> \<not> selectable t trs x) \<and>
          poolAddress c = Some a)
      \<or> ((\<forall>es. accountData t = Some es \<longrightarrow>
             (\<forall>e \<in> set es. \<forall>x. account e = Some x \<longrightarrow> \<not> selectable t trs x)) \<and>
          poolAddress c = tx_signature t))"
proof -
  from parse_SomeD [OF assms] obtain trs where
    trs: "tokenTransfers t = Some trs"
    and pa: "poolAddress c = js_or (findPoolAddress t (tokenMintsOf trs)) (tx_signature t)"
    by blast
  let ?P = "poolAccountEntry t (tokenMintsOf trs)"
  show ?thesis
  proof (cases "accountData t")
    case None
    then have "poolAddress c = tx_signature t"
      using pa by (simp add: findPoolAddress_def js_or_def truthy_def)
    with None trs show ?thesis by simp
  next
    case (Some es)
    show ?thesis
    proof (cases "find ?P es")
      case None
      then have no: "\<forall>e \<in> set es. \<not> ?P e" by (simp add: find_None_iff)
      from None Some have "poolAddress c = tx_signature t"
        using pa by (simp add: findPoolAddress_def js_or_def truthy_def)
      moreover from no have "\<forall>e \<in> set es. \<forall>x. account e = Some x \<longrightarrow> \<not> selectable t trs x"
        by (simp add: poolAccountEntry_iff)
      ultimately show ?thesis using trs Some by simp
    next
      case (Some e)
      then obtain i where i: "i < length es" "?P (es ! i)" "e = es ! i" "\<forall>k<i. \<not> ?P (es ! k)"
        by (auto simp: find_Some_iff)
      from i(2) obtain a where a: "account (es ! i) = Some a" "selectable t trs a"
        by (auto simp: poolAccountEntry_iff)
      then have "a \<noteq> []" by (simp add: selectable_def)
      with Some \<open>accountData t = Some es\<close> i(3) a(1) have "poolAddress c = Some a"
        using pa by (simp add: findPoolAddress_def js_or_def truthy_def)
      moreover from i(4) have "\<forall>k<i. \<forall>x. account (es ! k) = Some x \<longrightarrow> \<not> selectable t trs x"
        by (simp add: poolAccountEntry_iff)
      ultimately show ?thesis using trs \<open>accountData t = Some es\<close> i(1) a by blast
    qed
  qed
qed

lemmas ids = SOL_MINT_def TOKEN_PROGRAM_def SYSTEM_PROGRAM_def ATA_PROGRAM_def RAYDIUM_PROGRAM_def
lemmas parse_defs = parsePoolFromTransaction_def tokenMintsOf_def new_Set_def
  keptMint_def findPoolAddress_def poolAccountEntry_def js_or_def truthy_def or_str_def new_Date_def

theorem poolAddress_first_selectable_account_witness:
  "parsePoolFromTransaction tx_two_mints =
     Some \<lparr> tokenA = ''MintA'', tokenB = ''MintB'', poolAddress = Some ''Pool'',
            signature = Some ''sig2'', timestamp = Some 1700000000000, source = ''RAYDIUM'' \<rparr> \<and>
   (\<exists>trs. tokenTransfers tx_two_mints = Some trs \<and>
     ((\<exists>es i a. accountData tx_two_mints = Some es \<and> i < length es \<and>
          account (es ! i) = Some a \<and> selectable tx_two_mints trs a \<and> Some ''Pool'' = Some a)
      \<or> Some ''Pool'' = tx_signature tx_two_mints))"
proof -
  have p: "parsePoolFromTransaction tx_two_mints =
     Some \<lparr> tokenA = ''MintA'', tokenB = ''MintB'', poolAddress = Some ''Pool'',
            signature = Some ''sig2'', timestamp = Some 1700000000000, source = ''RAYDIUM'' \<rparr>"
    by (simp add: tx_two_mints_def parse_defs ids)
  from poolAddress_first_selectable_account [OF p] show ?thesis using p by fastforce
qed

text \<open>
  With three distinct mints the scan skips the third mint as well, where the wording
  "not one of the two token mints" selects it.
\<close>

theorem poolAddress_third_mint_counterexample:
  "parsePoolFromTransaction tx_three_mints =
     Some \<lparr> tokenA = ''MintA'', tokenB = ''MintB'', poolAddress = Some ''Pool'',
            signature = Some ''sig3'', timestamp = Some 1700000000000, source = ''RAYDIUM'' \<rparr> \<and>
   spec_poolAddress tx_three_mints ''MintA'' ''MintB'' = Some ''MintLP'' \<and>
   Some ''Pool'' \<noteq> Some ''MintLP''"
  by (simp add: tx_three_mints_def parse_defs spec_poolAddress_def ids)

text \<open>
  On the example of the specification the handler's parser finds no \<^verbatim>\<open>accountData\<close>
  and falls back to the signature.
\<close>

theorem spec_example_handler_counterexample:
  "map_option poolAddress (parsePoolFromTransaction spec_example) = Some (Some ''sig1'') \<and>
   map_option poolAddress (parsePoolFromTransaction spec_example) \<noteq> Some (Some ''PoolAcct'')"
  by (simp add: spec_example_def parse_defs ids)

text \<open>
  Claim C4, as the code has it. The stand-alone parser of the single-file server, which
  scans \<^verbatim>\<open>accounts\<close>, yields the candidate of the specification with pool address
  \<^verbatim>\<open>PoolAcct\<close>. The handler's parser scans \<^verbatim>\<open>accountData\<close> and ignores
  \<^verbatim>\<open>accounts\<close>: on the example it yields the same candidate except that the pool
  address is the signature \<^verbatim>\<open>sig1\<close>, and it yields \<^verbatim>\<open>PoolAcct\<close> when the same
  accounts are given as \<^verbatim>\<open>accountData\<close> entries.
\<close>

theorem spec_example_parsed:
  "server_parsePoolFromTransaction spec_example =
     Some \<lparr> tokenA = ''TokenA...'', tokenB = ''TokenB...'', poolAddress = Some ''PoolAcct'',
            signature = Some ''sig1'', timestamp = Some 1700000000000, source = ''unknown'' \<rparr> \<and>
   parsePoolFromTransaction spec_example =
     Some \<lparr> tokenA = ''TokenA...'', tokenB = ''TokenB...'', poolAddress = Some ''sig1'',
            signature = Some ''sig1'', timestamp = Some 1700000000000, source = ''unknown'' \<rparr> \<and>
   parsePoolFromTransaction spec_example_accountData =
     Some \<lparr> tokenA = ''TokenA...'', tokenB = ''TokenB...'', poolAddress = Some ''PoolAcct'',
            signature = Some ''sig1'', timestamp = Some 1700000000000, source = ''unknown'' \<rparr>"
  by (simp add: spec_example_accountData_def spec_example_def parse_defs
      server_parsePoolFromTransaction_def server_poolAccount_def ids)

section \<open>Retry with backoff\<close>



lemma withBackoff_from_all_fail:
  assumes "\<forall>k. fn k = Inl (err k)"
  shows "withBackoff_from fn (int (i + Suc m)) i =
           (concat (map (\<lambda>k. [Attempt k, Sleep (2 ^ k * 1000)]) [i..<i + m]) @ [Attempt (i + m)],
            Inl (err (i + m)))"
proof (induction m arbitrary: i)
  case 0
  show ?case using assms by (subst withBackoff_from.simps) simp
next
  case (Suc m)
  have "withBackoff_from fn (int (Suc i + Suc m)) (Suc i) =
          (concat (map (\<lambda>k. [Attempt k, Sleep (2 ^ k * 1000)]) [Suc i..<Suc i + m])
             @ [Attempt (Suc i + m)],
           Inl (err (Suc i + m)))"
    by (rule Suc.IH)
  moreover have "[i..<i + Suc m] = i # [Suc i..<Suc i + m]"
    by (simp add: upt_conv_Cons)
  ultimately show ?case using assms by (subst withBackoff_from.simps) simp
qed




section \<open>Rate limiting\<close>

text \<open>
  Claim C8, as the code has it. Of two consecutive calls of \<^verbatim>\<open>wait\<close> on one limiter,
  the second starting no earlier than the first completes, the stored timestamp is the
  completion time of the first call. The second completes at least \<open>delay\<close>
  milliseconds after the completion of the first when the delay is at most \<open>2^31 - 1\<close>
  milliseconds and the second call does not complete before it is due. When the wait
  that remains exceeds \<open>2^31 - 1\<close> milliseconds, the timer is set to one millisecond and
  the second call completes one millisecond after it starts, up to its drift.
\<close>

theorem wait_spacing:
  assumes "wait rl now1 drift1 = (released1, rl1)"
    and "wait rl1 now2 drift2 = (released2, rl2)"
    and "released1 \<le> now2"
  shows "lastCall rl1 = released1 \<and>
         (0 \<le> drift2 \<and> delay rl \<le> 2147483647 \<longrightarrow> released1 + delay rl \<le> released2) \<and>
         (2147483647 < delay rl - (now2 - released1) \<longrightarrow> released2 = now2 + 1 + drift2)"
proof -
  from assms(1) have l: "lastCall rl1 = released1" and d: "delay rl1 = delay rl"
    by (auto simp: wait_def Let_def)
  from assms(2) have r2: "released2 =
      (if now2 - released1 < delay rl
       then now2 + setTimeout_delay (delay rl - (now2 - released1))
       else now2) + drift2"
    by (auto simp: wait_def Let_def l d)
  have "released1 + delay rl \<le> released2" if "0 \<le> drift2" and "delay rl \<le> 2147483647"
    using that assms(3) r2 by (auto simp: setTimeout_delay_def split: if_splits)
  moreover have "released2 = now2 + 1 + drift2" if "2147483647 < delay rl - (now2 - released1)"
    using that r2 by (auto simp: setTimeout_delay_def)
  ultimately show ?thesis using l by blast
qed

theorem wait_spacing_witness:
  "wait (new_RateLimiter 1000) 1700000000000 0 =
     (1700000000000, \<lparr> lastCall = 1700000000000, delay = 1000 \<rparr>) \<and>
   wait \<lparr> lastCall = 1700000000000, delay = 1000 \<rparr> 1700000000000 0 =
     (1700000001000, \<lparr> lastCall = 1700000001000, delay = 1000 \<rparr>) \<and>
   (1700000000000 :: int) + delay (new_RateLimiter 1000) \<le> 1700000001000"
proof -
  have 1: "wait (new_RateLimiter 1000) 1700000000000 0 =
     (1700000000000, \<lparr> lastCall = 1700000000000, delay = 1000 \<rparr>)"
    by (simp add: wait_def new_RateLimiter_def)
  have 2: "wait \<lparr> lastCall = 1700000000000, delay = 1000 \<rparr> 1700000000000 0 =
     (1700000001000, \<lparr> lastCall = 1700000001000, delay = 1000 \<rparr>)"
    by (simp add: wait_def setTimeout_delay_def)
  from wait_spacing [OF 1 2] show ?thesis using 1 2 by (simp add: new_RateLimiter_def)
qed

text \<open>
  With a delay of 3000000000 milliseconds the timer of the second call is set to one
  millisecond, and with a delay of 1000 milliseconds a timer that resumes one millisecond
  early completes the second call 999 milliseconds after the first.
\<close>

theorem wait_spacing_counterexample:
  "wait (new_RateLimiter 3000000000) 1700000000000 0 =
     (1700000000000, \<lparr> lastCall = 1700000000000, delay = 3000000000 \<rparr>) \<and>
   wait \<lparr> lastCall = 1700000000000, delay = 3000000000 \<rparr> 1700000000000 0 =
     (1700000000001, \<lparr> lastCall = 1700000000001, delay = 3000000000 \<rparr>) \<and>
   \<not> (1700000000000 :: int) + 3000000000 \<le> 1700000000001 \<and>
   wait \<lparr> lastCall = 1700000000000, delay = 1000 \<rparr> 1700000000000 (- 1) =
     (1700000000999, \<lparr> lastCall = 1700000000999, delay = 1000 \<rparr>) \<and>
   \<not> (1700000000000 :: int) + 1000 \<le> 1700000000999"
  by (simp add: wait_def new_RateLimiter_def setTimeout_delay_def)

section \<open>Persistence\<close>


lemma pool_create_InrD:
  assumes "pool_create w d data = Inr (row, d')"
  shows "row = data \<lparr> pool_id := Suc (length (pools d)) \<rparr>"
    and "pools d' = pools d @ [row]"
    and "events d' = events d"
    and "pool_poolAddress data \<noteq> None"
    and "\<forall>p \<in> set (pools d). pool_poolAddress p \<noteq> pool_poolAddress data"
  using assms by (auto simp: pool_create_def Let_def image_iff split: if_splits)

lemma poolEvent_create_InrD:
  assumes "poolEvent_create w d data = Inr (row, d')"
  shows "pools d' = pools d"
  using assms by (auto simp: poolEvent_create_def Let_def split: if_splits)

lemma set_pool_findMany_apy:
  "set (pool_findMany_apy d limit) \<subseteq> {p \<in> set (pools d). pool_apy p \<noteq> None}"
proof -
  have "set (pool_findMany_apy d limit) \<subseteq>
      set (sort_key (\<lambda>p. case pool_apy p of None \<Rightarrow> 0 | Some a \<Rightarrow> - a)
            (filter (\<lambda>p. pool_apy p \<noteq> None) (pools d)))"
    unfolding pool_findMany_apy_def by (rule set_take_subset)
  then show ?thesis by auto
qed

text \<open>
  Claim C10. \<^verbatim>\<open>storePool\<close> stores \<^verbatim>\<open>null\<close> for an \<open>apy\<close>, \<open>tvl\<close> or \<open>volume24h\<close>
  that is absent or the number zero and keeps any other number, and it stores the source
  \<^verbatim>\<open>Unknown\<close> when none is given. A pool handed over with a yield of exactly zero is
  therefore stored without a yield, and the listing of \<^verbatim>\<open>getPoolsWithApy\<close>, which
  holds only rows with a yield, contains neither this row nor any row of its address.
\<close>

theorem storePool_coerces_falsy:
  assumes "storePool w d poolData = Inr (row, d')"
  shows "(pd_apy poolData = None \<or> pd_apy poolData = Some 0 \<longrightarrow> pool_apy row = None) \<and>
         (\<forall>x. pd_apy poolData = Some x \<and> x \<noteq> 0 \<longrightarrow> pool_apy row = Some x) \<and>
         (pd_tvl poolData = None \<or> pd_tvl poolData = Some 0 \<longrightarrow> pool_tvl row = None) \<and>
         (\<forall>x. pd_tvl poolData = Some x \<and> x \<noteq> 0 \<longrightarrow> pool_tvl row = Some x) \<and>
         (pd_volume24h poolData = None \<or> pd_volume24h poolData = Some 0 \<longrightarrow>
            pool_volume24h row = None) \<and>
         (\<forall>x. pd_volume24h poolData = Some x \<and> x \<noteq> 0 \<longrightarrow> pool_volume24h row = Some x) \<and>
         (pd_source poolData = None \<or> pd_source poolData = Some [] \<longrightarrow>
            pool_source row = ''Unknown'') \<and>
         row \<in> set (pools d') \<and>
         (pd_apy poolData = Some 0 \<longrightarrow>
            row \<notin> set (getPoolsWithApy d' limit) \<and>
            (\<forall>p \<in> set (getPoolsWithApy d' limit).
               pool_apy p \<noteq> None \<and> pool_poolAddress p \<noteq> pool_poolAddress row))"
proof -
  let ?data = "\<lparr> pool_id = 0,
         pool_tokenA = pd_tokenA poolData,
         pool_tokenB = pd_tokenB poolData,
         pool_poolAddress = pd_poolAddress poolData,
         pool_source = or_str (pd_source poolData) ''Unknown'',
         pool_signature = pd_signature poolData,
         pool_apy = or_null (pd_apy poolData),
         pool_tvl = or_null (pd_tvl poolData),
         pool_volume24h = or_null (pd_volume24h poolData) \<rparr>"
  from assms have c: "pool_create w d ?data = Inr (row, d')"
    by (simp add: storePool_def)
  note D = pool_create_InrD [OF c]
  have apy: "pool_apy row = or_null (pd_apy poolData)"
    and tvl: "pool_tvl row = or_null (pd_tvl poolData)"
    and vol: "pool_volume24h row = or_null (pd_volume24h poolData)"
    and src: "pool_source row = or_str (pd_source poolData) ''Unknown''"
    and adr: "pool_poolAddress row = pd_poolAddress poolData"
    using D(1) by simp_all
  have mem: "row \<in> set (pools d')" using D(2) by simp
  have fresh: "\<forall>p \<in> set (pools d). pool_poolAddress p \<noteq> pool_poolAddress row"
    using D(5) adr by auto
  have listing: "pd_apy poolData = Some 0 \<longrightarrow>
            row \<notin> set (getPoolsWithApy d' limit) \<and>
            (\<forall>p \<in> set (getPoolsWithApy d' limit).
               pool_apy p \<noteq> None \<and> pool_poolAddress p \<noteq> pool_poolAddress row)"
  proof
    assume z: "pd_apy poolData = Some 0"
    then have rn: "pool_apy row = None" using apy by (simp add: or_null_def truthy_num_def)
    have sub: "set (getPoolsWithApy d' limit) \<subseteq> {p \<in> set (pools d'). pool_apy p \<noteq> None}"
      unfolding getPoolsWithApy_def by (rule set_pool_findMany_apy)
    have "row \<notin> set (getPoolsWithApy d' limit)" using sub rn by auto
    moreover have "\<forall>p \<in> set (getPoolsWithApy d' limit).
        pool_apy p \<noteq> None \<and> pool_poolAddress p \<noteq> pool_poolAddress row"
    proof
      fix p assume "p \<in> set (getPoolsWithApy d' limit)"
      with sub have p: "p \<in> set (pools d')" "pool_apy p \<noteq> None" by auto
      with rn have "p \<noteq> row" by auto
      with p(1) D(2) have "p \<in> set (pools d)" by auto
      with fresh p(2) show "pool_apy p \<noteq> None \<and> pool_poolAddress p \<noteq> pool_poolAddress row"
        by auto
    qed
    ultimately show "row \<notin> set (getPoolsWithApy d' limit) \<and>
            (\<forall>p \<in> set (getPoolsWithApy d' limit).
               pool_apy p \<noteq> None \<and> pool_poolAddress p \<noteq> pool_poolAddress row)" by simp
  qed
  show ?thesis
    using apy tvl vol src mem listing
    by (auto simp: or_null_def truthy_num_def or_str_def)
qed

theorem storePool_coerces_falsy_witness:
  "storePool quiet_world \<lparr> pools = [], events = [] \<rparr> zero_apy_pool =
     Inr (zero_apy_row, \<lparr> pools = [zero_apy_row], events = [] \<rparr>) \<and>
   pd_apy zero_apy_pool = Some 0 \<and>
   pool_apy zero_apy_row = None \<and>
   zero_apy_row \<notin> set (getPoolsWithApy \<lparr> pools = [zero_apy_row], events = [] \<rparr> 25)"
proof -
  have s: "storePool quiet_world \<lparr> pools = [], events = [] \<rparr> zero_apy_pool =
     Inr (zero_apy_row, \<lparr> pools = [zero_apy_row], events = [] \<rparr>)"
    by (simp add: storePool_def pool_create_def quiet_world_def zero_apy_pool_def
        zero_apy_row_def or_str_def or_null_def truthy_num_def Let_def)
  have z: "pd_apy zero_apy_pool = Some 0" by (simp add: zero_apy_pool_def)
  from storePool_coerces_falsy [OF s, of 25] z s show ?thesis by simp
qed

section \<open>The endpoint\<close>

text \<open>
  Claim C9 on the code. The endpoint of the modular server hands the body to
  \<^verbatim>\<open>processWebhookPayload\<close> as it is. A body that is a single transaction notification
  is an object, the loop over it raises a TypeError before any transaction is looked at,
  and the answer is 500 with nothing processed; the same notification inside an array
  is answered with 200, and the endpoint of the single-file server processes the
  single notification as a list of one.
\<close>

theorem single_object_body_rejected:
  "helius_webhook ws st (Some (JsonObject t)) = (500, st) \<and>
   fst (helius_webhook ws st (Some (JsonArray [t]))) = 200 \<and>
   server_transactions (JsonObject t) = [t]"
  by (simp add: helius_webhook_def processWebhookPayload_def server_transactions_def)

text \<open>A body that is an array, or absent, is answered with 200 whatever its items do.\<close>

lemma array_body_answered_200:
  "fst (helius_webhook ws st (Some (JsonArray ts))) = 200 \<and> helius_webhook ws st None = (200, st)"
  by (simp add: helius_webhook_def processWebhookPayload_def)

section \<open>Enrichment failures\<close>


lemma getAllPools_all_fail:
  assumes "\<forall>k. isl (getAllPools_attempt (responses k))"
  shows "isl (getAllPools responses)"
proof -
  let ?fn = "\<lambda>k. getAllPools_attempt (responses k)"
  have "\<forall>k. ?fn k = Inl (projl (?fn k))" using assms by simp
  then have "withBackoff_from ?fn (int (0 + Suc 2)) 0 =
      (concat (map (\<lambda>k. [Attempt k, Sleep (2 ^ k * 1000)]) [0..<0 + 2]) @ [Attempt (0 + 2)],
       Inl (projl (?fn (0 + 2))))"
    by (rule withBackoff_from_all_fail)
  then show ?thesis by (simp add: getAllPools_def withBackoff_def)
qed

lemma getBestApyForMint_fails:
  assumes "isl (getAllPools responses)"
  shows "isl (getBestApyForMint responses mintAddress)"
proof -
  from assms obtain e where "getAllPools responses = Inl e" by (cases "getAllPools responses") auto
  then show ?thesis by (simp add: getBestApyForMint_def searchPools_def)
qed

text \<open>
  Claim C5 on the code. When every attempt of the first yield lookup fails, the error
  that \<^verbatim>\<open>getBestApyForMint\<close> throws again reaches the \<^verbatim>\<open>catch\<close> clause of
  \<^verbatim>\<open>savePoolToDatabase\<close>: the call returns \<^verbatim>\<open>null\<close> and the store is unchanged, so
  the pool is not persisted.
\<close>

theorem yield_failure_blocks_persistence:
  assumes "\<forall>k. isl (getAllPools_attempt (llamaResponses w 0 k))"
  shows "fst (savePoolToDatabase w st poolData) = None \<and>
         databaseClient (snd (savePoolToDatabase w st poolData)) = databaseClient st"
proof -
  have "isl (getBestApyForMint (llamaResponses w 0) (tokenA poolData))"
    using assms by (intro getBestApyForMint_fails getAllPools_all_fail)
  then obtain e where e: "getBestApyForMint (llamaResponses w 0) (tokenA poolData) = Inl e"
    by (cases "getBestApyForMint (llamaResponses w 0) (tokenA poolData)") auto
  show ?thesis
  proof (cases "poolExists w (databaseClient st) (poolAddress poolData)")
    case (Inl x)
    then show ?thesis by (simp add: savePoolToDatabase_def)
  next
    case (Inr b)
    with e show ?thesis by (cases b) (simp_all add: savePoolToDatabase_def Let_def)
  qed
qed

lemma llama_down_attempt:
  "getAllPools_attempt (llamaResponses llama_down_world 0 k) = Inl (ApiError ''DefiLlama'' 503)"
  by (simp add: llama_down_world_def quiet_world_def getAllPools_attempt_def response_ok_def)

theorem yield_failure_blocks_persistence_witness:
  "poolExists llama_down_world (databaseClient empty_state) (poolAddress candidate_two_mints)
     = Inr False \<and>
   fst (savePoolToDatabase llama_down_world empty_state candidate_two_mints) = None \<and>
   databaseClient (snd (savePoolToDatabase llama_down_world empty_state candidate_two_mints))
     = \<lparr> pools = [], events = [] \<rparr>"
proof -
  have h: "\<forall>k. isl (getAllPools_attempt (llamaResponses llama_down_world 0 k))"
    by (simp add: llama_down_attempt)
  have x: "poolExists llama_down_world (databaseClient empty_state) (poolAddress candidate_two_mints)
     = Inr False"
    by (simp add: poolExists_def pool_findUnique_def llama_down_world_def quiet_world_def
        empty_state_def candidate_two_mints_def)
  from yield_failure_blocks_persistence [OF h, of empty_state candidate_two_mints] x
  show ?thesis by (simp add: empty_state_def)
qed

section \<open>De-duplication\<close>

lemma save_unchanged_if_stored:
  assumes "poolAddress poolData \<in> set (map pool_poolAddress (pools (databaseClient st)))"
  shows "savePoolToDatabase w st poolData = (None, st)"
proof (cases "poolExists w (databaseClient st) (poolAddress poolData)")
  case (Inl e)
  then show ?thesis by (simp add: savePoolToDatabase_def)
next
  case (Inr b)
  then obtain a where a: "poolAddress poolData = Some a"
    by (cases "poolAddress poolData")
      (auto simp: poolExists_def pool_findUnique_def split: if_splits)
  from assms a have "\<exists>p. p \<in> set (pools (databaseClient st)) \<and> pool_poolAddress p = Some a"
    by auto
  then have "find (\<lambda>p. pool_poolAddress p = Some a) (pools (databaseClient st)) \<noteq> None"
    by (simp add: find_None_iff)
  with Inr a have "b" by (auto simp: poolExists_def pool_findUnique_def split: if_splits)
  with Inr show ?thesis by (simp add: savePoolToDatabase_def)
qed

lemma poolExists_FalseD:
  assumes "poolExists w d address = Inr False"
  shows "address \<notin> set (map pool_poolAddress (pools d))"
proof (cases address)
  case None
  with assms show ?thesis
    by (simp add: poolExists_def pool_findUnique_def split: if_splits)
next
  case (Some a)
  with assms have "find (\<lambda>p. pool_poolAddress p = Some a) (pools d) = None"
    by (simp add: poolExists_def pool_findUnique_def split: if_splits)
  then have "\<forall>p \<in> set (pools d). pool_poolAddress p \<noteq> Some a"
    by (simp add: find_None_iff)
  with Some show ?thesis by auto
qed

lemma parsedPools_iff:
  "c \<in> set (parsedPools ts) \<longleftrightarrow>
     (\<exists>t \<in> set ts. acceptedType t \<and> parsePoolFromTransaction t = Some c)"
  by (auto simp: parsedPools_def set_map_filter)

lemma storePool_row:
  assumes "storePool w d poolData = Inr (row, d')"
  shows "pools d' = pools d @ [row] \<and> pool_poolAddress row = pd_poolAddress poolData \<and>
         pool_signature row = pd_signature poolData"
proof -
  from assms obtain data where c: "pool_create w d data = Inr (row, d')"
    and a: "pool_poolAddress data = pd_poolAddress poolData"
    and g: "pool_signature data = pd_signature poolData"
    by (auto simp: storePool_def)
  note D = pool_create_InrD [OF c]
  from D(1) a g have "pool_poolAddress row = pd_poolAddress poolData"
    "pool_signature row = pd_signature poolData" by simp_all
  with D(2) show ?thesis by simp
qed

lemma storeEvent_pools:
  assumes "storeEvent w d eventData = Inr (row, d')"
  shows "pools d' = pools d"
  using assms poolEvent_create_InrD by (auto simp: storeEvent_def)

text \<open>
  A call either leaves the rows as they are, or it has found no row of the candidate's
  address and appends one row with the candidate's address and signature.
\<close>

lemma save_rows_cases:
  "pools (databaseClient (snd (savePoolToDatabase w st poolData))) = pools (databaseClient st) \<or>
   (poolExists w (databaseClient st) (poolAddress poolData) = Inr False \<and>
    (\<exists>row. pool_poolAddress row = poolAddress poolData \<and>
       pool_signature row = signature poolData \<and>
       pools (databaseClient (snd (savePoolToDatabase w st poolData))) =
         pools (databaseClient st) @ [row]))"
proof (cases "poolExists w (databaseClient st) (poolAddress poolData)")
  case (Inl e)
  then show ?thesis by (simp add: savePoolToDatabase_def)
next
  case (Inr b)
  show ?thesis
  proof (cases b)
    case True
    with Inr show ?thesis by (simp add: savePoolToDatabase_def)
  next
    case False
    with Inr show ?thesis
      unfolding savePoolToDatabase_def Let_def
      by (auto split: sum.split prod.split dest!: storePool_row storeEvent_pools)
  qed
qed

lemma save_distinct:
  assumes "distinct (map pool_poolAddress (pools (databaseClient st)))"
  shows "distinct (map pool_poolAddress (pools (databaseClient (snd (savePoolToDatabase w st poolData)))))"
  using save_rows_cases [of w st poolData] assms
  by (auto dest!: poolExists_FalseD)

lemma storePool_succeeds:
  assumes "\<not> storeFails w CreatePool"
    and "pd_poolAddress poolData \<noteq> None"
    and "pd_poolAddress poolData \<notin> set (map pool_poolAddress (pools d))"
    and "pd_signature poolData \<notin> set (map pool_signature (pools d))"
  shows "\<exists>row d'. storePool w d poolData = Inr (row, d')"
  using assms by (simp add: storePool_def pool_create_def Let_def)

text \<open>Under the conditions above the candidate's address is in the store after the call.\<close>

lemma save_persists:
  assumes "storeAccepts w" and "yieldLookupsReturn w c" and "insertable (databaseClient st) c"
  shows "poolAddress c \<in>
           set (map pool_poolAddress (pools (databaseClient (snd (savePoolToDatabase w st c)))))"
proof (cases "poolAddress c \<in> set (map pool_poolAddress (pools (databaseClient st)))")
  case True
  then have "savePoolToDatabase w st c = (None, st)" by (rule save_unchanged_if_stored)
  with True show ?thesis by simp
next
  case False
  let ?d = "databaseClient st"
  from assms(3) obtain a where a: "poolAddress c = Some a" by (auto simp: insertable_def)
  from False a have "\<forall>p \<in> set (pools ?d). pool_poolAddress p \<noteq> Some a"
    by (metis image_eqI set_map)
  then have "find (\<lambda>p. pool_poolAddress p = Some a) (pools ?d) = None"
    by (simp add: find_None_iff)
  with assms(1) a have ex: "poolExists w ?d (poolAddress c) = Inr False"
    by (simp add: poolExists_def pool_findUnique_def storeAccepts_def)
  from assms(2) obtain x where x: "getBestApyForMint (llamaResponses w 0) (tokenA c) = Inr x"
    by (cases "getBestApyForMint (llamaResponses w 0) (tokenA c)")
      (auto simp: yieldLookupsReturn_def)
  from assms(2) x obtain y where
    y: "(if x = None then getBestApyForMint (llamaResponses w 1) (tokenB c) else Inr x) = Inr y"
    by (cases x; cases "getBestApyForMint (llamaResponses w 1) (tokenB c)")
      (auto simp: yieldLookupsReturn_def)
  have fresh: "signature c \<notin> set (map pool_signature (pools ?d))"
  proof
    assume "signature c \<in> set (map pool_signature (pools ?d))"
    then obtain p where "p \<in> set (pools ?d)" "pool_signature p = signature c" by auto
    with assms(3) have "pool_poolAddress p = poolAddress c" "p \<in> set (pools ?d)"
      by (auto simp: insertable_def)
    then have "poolAddress c \<in> pool_poolAddress ` set (pools ?d)" by (metis image_eqI)
    with False show False by simp
  qed
  let ?st1 = "st \<lparr> rateLimiter := snd (wait (rateLimiter st) (clock w) (clockDrift w)) \<rparr>"
  let ?pd = "\<lparr> pd_tokenA = tokenA c, pd_tokenB = tokenB c, pd_poolAddress = poolAddress c,
      pd_signature = signature c, pd_source = Some (source c),
      pd_apy = or_null (case y of None \<Rightarrow> None | Some a \<Rightarrow> ad_apy a),
      pd_tvl = or_null (case y of None \<Rightarrow> None | Some a \<Rightarrow> ad_tvl a),
      pd_volume24h = None \<rparr>"
  let ?ed = "\<lambda>row. \<lparr> ed_poolId = pool_id row, ed_signature = signature c,
         ed_eventType = Some ''created'', ed_amount = None,
         ed_rawData = Some \<lparr> rd_tokenA = tokenA c, rd_tokenB = tokenB c, rd_source = source c,
           rd_tokenAInfo = getFullTokenData (jupiterResponses w (tokenA c)) (tokenA c),
           rd_tokenBInfo = getFullTokenData (jupiterResponses w (tokenB c)) (tokenB c) \<rparr> \<rparr>"
  from assms(1) a False fresh obtain row d1 where s: "storePool w ?d ?pd = Inr (row, d1)"
    using storePool_succeeds [of w ?pd ?d] by (auto simp: storeAccepts_def)
  from storePool_row [OF s] have r: "pools d1 = pools ?d @ [row]" "pool_poolAddress row = poolAddress c"
    by simp_all
  have unfolded: "savePoolToDatabase w st c =
      (case storeEvent w d1 (?ed row) of
         Inl e \<Rightarrow> (None, ?st1 \<lparr> databaseClient := d1 \<rparr>)
       | Inr (event, d2) \<Rightarrow> (Some row, ?st1 \<lparr> databaseClient := d2 \<rparr>))"
  proof (cases "x = None")
    case True
    with y have y1: "getBestApyForMint (llamaResponses w 1) (tokenB c) = Inr y" by simp
    show ?thesis
      unfolding savePoolToDatabase_def Let_def ex x using s y1 by (simp add: True)
  next
    case False
    with y have y2: "y = x" by simp
    show ?thesis
      unfolding savePoolToDatabase_def Let_def ex x using s by (simp add: False y2)
  qed
  show ?thesis
  proof (cases "storeEvent w d1 (?ed row)")
    case (Inl e)
    with r show ?thesis unfolding unfolded by simp
  next
    case (Inr res)
    obtain ev d2 where res: "res = (ev, d2)" by (cases res)
    with Inr storeEvent_pools have "pools d2 = pools d1" by blast
    with Inr res r show ?thesis unfolding unfolded by simp
  qed
qed

lemma save_keeps_rows:
  "set (pools (databaseClient st)) \<subseteq>
     set (pools (databaseClient (snd (savePoolToDatabase w st c))))"
  using save_rows_cases [of w st c] by auto

lemma processTransactions_keeps_rows:
  "set (pools (databaseClient st)) \<subseteq>
     set (pools (databaseClient (processTransactions ws i st ts)))"
proof (induction ts arbitrary: i st)
  case Nil
  show ?case by simp
next
  case (Cons t ts)
  show ?case
  proof (cases "acceptedType t \<and> parsePoolFromTransaction t \<noteq> None")
    case False
    then show ?thesis using Cons.IH [of st "Suc i"] by (cases "parsePoolFromTransaction t") auto
  next
    case True
    then obtain c where c: "parsePoolFromTransaction t = Some c" by auto
    have "set (pools (databaseClient st)) \<subseteq>
        set (pools (databaseClient (snd (savePoolToDatabase (ws i) st c))))"
      by (rule save_keeps_rows)
    also have "\<dots> \<subseteq> set (pools (databaseClient
        (processTransactions ws (Suc i) (snd (savePoolToDatabase (ws i) st c)) ts)))"
      by (rule Cons.IH)
    finally show ?thesis using True c by simp
  qed
qed

lemma insertable_after_save:
  assumes "insertable (databaseClient st) c'"
    and "signature c = signature c' \<longrightarrow> poolAddress c = poolAddress c'"
  shows "insertable (databaseClient (snd (savePoolToDatabase w st c))) c'"
proof -
  let ?d = "databaseClient st" and ?d' = "databaseClient (snd (savePoolToDatabase w st c))"
  from assms(1) have ids: "poolAddress c' \<noteq> None" "signature c' \<noteq> None"
    and old: "\<forall>p \<in> set (pools ?d). pool_signature p = signature c' \<longrightarrow>
                pool_poolAddress p = poolAddress c'"
    by (simp_all add: insertable_def)
  have "\<forall>p \<in> set (pools ?d'). pool_signature p = signature c' \<longrightarrow>
           pool_poolAddress p = poolAddress c'"
  proof (intro ballI impI)
    fix p assume p: "p \<in> set (pools ?d')" and sg: "pool_signature p = signature c'"
    from save_rows_cases [of w st c] consider
      "pools ?d' = pools ?d"
      | row where "pool_poolAddress row = poolAddress c" "pool_signature row = signature c"
          "pools ?d' = pools ?d @ [row]"
      by blast
    then show "pool_poolAddress p = poolAddress c'"
    proof cases
      case 1
      with p sg old show ?thesis by simp
    next
      case (2 row)
      from p 2(3) have "p \<in> set (pools ?d) \<or> p = row" by auto
      then show ?thesis
      proof
        assume "p \<in> set (pools ?d)"
        with sg old show ?thesis by blast
      next
        assume "p = row"
        with sg 2(1,2) assms(2) show ?thesis by simp
      qed
    qed
  qed
  with ids show ?thesis by (simp add: insertable_def)
qed

lemma processTransactions_distinct:
  "distinct (map pool_poolAddress (pools (databaseClient st))) \<Longrightarrow>
   distinct (map pool_poolAddress (pools (databaseClient (processTransactions ws i st ts))))"
proof (induction ts arbitrary: i st)
  case Nil
  then show ?case by simp
next
  case (Cons t ts)
  then show ?case
    by (cases "parsePoolFromTransaction t") (auto intro: save_distinct)
qed

lemma processTransactions_unchanged:
  "\<forall>t \<in> set ts. \<forall>c. acceptedType t \<and> parsePoolFromTransaction t = Some c \<longrightarrow>
       poolAddress c \<in> set (map pool_poolAddress (pools (databaseClient st))) \<Longrightarrow>
   processTransactions ws i st ts = st"
proof (induction ts arbitrary: i)
  case Nil
  show ?case by simp
next
  case (Cons t ts)
  then have rest: "processTransactions ws (Suc i) st ts = st" by simp
  show ?case
  proof (cases "acceptedType t")
    case False
    with rest show ?thesis by simp
  next
    case True
    show ?thesis
    proof (cases "parsePoolFromTransaction t")
      case None
      with True rest show ?thesis by simp
    next
      case (Some c)
      with True Cons.prems
      have "poolAddress c \<in> set (map pool_poolAddress (pools (databaseClient st)))" by simp
      then have "savePoolToDatabase (ws i) st c = (None, st)" by (rule save_unchanged_if_stored)
      with True Some rest show ?thesis by simp
    qed
  qed
qed

lemma processTransactions_persists:
  assumes "\<forall>c \<in> set (parsedPools ts). \<forall>i. storeAccepts (ws i) \<and> yieldLookupsReturn (ws i) c"
    and "\<forall>c \<in> set (parsedPools ts). insertable (databaseClient st) c"
    and "\<forall>c \<in> set (parsedPools ts). \<forall>c' \<in> set (parsedPools ts).
           signature c' = signature c \<longrightarrow> poolAddress c' = poolAddress c"
  shows "\<forall>c \<in> set (parsedPools ts).
           poolAddress c \<in>
             set (map pool_poolAddress (pools (databaseClient (processTransactions ws i st ts))))"
  using assms
proof (induction ts arbitrary: i st)
  case Nil
  show ?case by (simp add: parsedPools_def)
next
  case (Cons t ts)
  show ?case
  proof (cases "acceptedType t \<and> parsePoolFromTransaction t \<noteq> None")
    case False
    then have same: "parsedPools (t # ts) = parsedPools ts"
      by (cases "parsePoolFromTransaction t") (auto simp: parsedPools_def)
    from False have "processTransactions ws i st (t # ts) = processTransactions ws (Suc i) st ts"
      by (cases "parsePoolFromTransaction t") auto
    moreover have "\<forall>c \<in> set (parsedPools ts). poolAddress c \<in> set (map pool_poolAddress
        (pools (databaseClient (processTransactions ws (Suc i) st ts))))"
      using Cons.prems unfolding same by (rule Cons.IH)
    ultimately show ?thesis unfolding same by (simp only:)
  next
    case True
    then obtain c where c: "parsePoolFromTransaction t = Some c" by auto
    with True have pp: "parsedPools (t # ts) = c # parsedPools ts"
      by (simp add: parsedPools_def)
    let ?st' = "snd (savePoolToDatabase (ws i) st c)"
    from True c have step: "processTransactions ws i st (t # ts) =
        processTransactions ws (Suc i) ?st' ts" by simp
    have cin: "c \<in> set (parsedPools (t # ts))" by (simp add: pp)
    have sub: "c' \<in> set (parsedPools (t # ts))" if "c' \<in> set (parsedPools ts)" for c'
      using that by (simp add: pp)
    from Cons.prems(1) cin have w: "storeAccepts (ws i)" "yieldLookupsReturn (ws i) c"
      by blast+
    from Cons.prems(2) cin have "insertable (databaseClient st) c" by blast
    with w have
      "poolAddress c \<in> set (map pool_poolAddress (pools (databaseClient ?st')))"
      by (intro save_persists)
    moreover have "set (pools (databaseClient ?st')) \<subseteq>
        set (pools (databaseClient (processTransactions ws (Suc i) ?st' ts)))"
      by (rule processTransactions_keeps_rows)
    ultimately have first: "poolAddress c \<in> set (map pool_poolAddress
        (pools (databaseClient (processTransactions ws (Suc i) ?st' ts))))"
      unfolding set_map by blast
    have ins: "\<forall>c' \<in> set (parsedPools ts). insertable (databaseClient ?st') c'"
    proof
      fix c' assume c': "c' \<in> set (parsedPools ts)"
      with Cons.prems(2) sub have "insertable (databaseClient st) c'" by blast
      moreover from Cons.prems(3) cin sub c'
      have "signature c = signature c' \<longrightarrow> poolAddress c = poolAddress c'" by blast
      ultimately show "insertable (databaseClient ?st') c'" by (rule insertable_after_save)
    qed
    have p1: "\<forall>c \<in> set (parsedPools ts). \<forall>i. storeAccepts (ws i) \<and> yieldLookupsReturn (ws i) c"
      using Cons.prems(1) sub by blast
    have p3: "\<forall>c \<in> set (parsedPools ts). \<forall>c' \<in> set (parsedPools ts).
           signature c' = signature c \<longrightarrow> poolAddress c' = poolAddress c"
      using Cons.prems(3) sub by blast
    have "\<forall>c' \<in> set (parsedPools ts). poolAddress c' \<in> set (map pool_poolAddress
        (pools (databaseClient (processTransactions ws (Suc i) ?st' ts))))"
      using p1 ins p3 by (rule Cons.IH)
    with first pp step show ?thesis by simp
  qed
qed

lemma distinct_map_filter_one:
  assumes "distinct (map f xs)" and "y \<in> set (map f xs)"
  shows "length (filter (\<lambda>x. f x = y) xs) = 1"
  using assms
proof (induction xs)
  case Nil
  then show ?case by simp
next
  case (Cons x xs)
  show ?case
  proof (cases "f x = y")
    case True
    with Cons.prems have "y \<notin> f ` set xs" by simp
    then have "\<forall>z \<in> set xs. f z \<noteq> y" by blast
    then have "filter (\<lambda>x. f x = y) xs = []" by (simp add: filter_empty_conv)
    with True show ?thesis by simp
  next
    case False
    with Cons show ?thesis by auto
  qed
qed

text \<open>
  Claim C6, as the code has it. Starting from a store with at most one pool row per
  pool address, a submission leaves at most one row per address, and so does a second
  submission of the same payload. A candidate whose pool address is stored is skipped:
  the call returns \<^verbatim>\<open>null\<close> and changes nothing. When, during the first submission,
  the store accepts the lookups and insertions and the yield lookups return, and every
  pool of the payload has a pool address and a signature that no row or pool of another
  address carries, then the first submission leaves every pool it parses in the store,
  the second submission changes nothing and is answered with 200 again, and each of
  these addresses has exactly one row.
\<close>

theorem duplicate_submission_is_noop:
  assumes "distinct (map pool_poolAddress (pools (databaseClient st)))"
    and "helius_webhook ws1 st (Some (JsonArray ts)) = (status1, st1)"
  shows "distinct (map pool_poolAddress (pools (databaseClient st1))) \<and>
         distinct (map pool_poolAddress
           (pools (databaseClient (snd (helius_webhook ws2 st1 (Some (JsonArray ts))))))) \<and>
         (\<forall>w c. poolAddress c \<in> set (map pool_poolAddress (pools (databaseClient st1))) \<longrightarrow>
            savePoolToDatabase w st1 c = (None, st1)) \<and>
         ((\<forall>c \<in> set (parsedPools ts).
              (\<forall>i. storeAccepts (ws1 i) \<and> yieldLookupsReturn (ws1 i) c) \<and>
              insertable (databaseClient st) c \<and>
              (\<forall>c' \<in> set (parsedPools ts).
                 signature c' = signature c \<longrightarrow> poolAddress c' = poolAddress c)) \<longrightarrow>
          helius_webhook ws2 st1 (Some (JsonArray ts)) = (200, st1) \<and>
          (\<forall>c \<in> set (parsedPools ts).
              length (filter (\<lambda>p. pool_poolAddress p = poolAddress c)
                        (pools (databaseClient st1))) = 1))"
proof -
  from assms(2) have st1: "st1 = processTransactions ws1 0 st ts"
    by (simp add: helius_webhook_def processWebhookPayload_def)
  have d1: "distinct (map pool_poolAddress (pools (databaseClient st1)))"
    unfolding st1 using assms(1) by (rule processTransactions_distinct)
  have second: "helius_webhook ws2 st1 (Some (JsonArray ts)) = (200, processTransactions ws2 0 st1 ts)"
    by (simp add: helius_webhook_def processWebhookPayload_def)
  have d2: "distinct (map pool_poolAddress
           (pools (databaseClient (snd (helius_webhook ws2 st1 (Some (JsonArray ts)))))))"
    unfolding second using d1 by (simp add: processTransactions_distinct)
  have skip: "\<forall>w c. poolAddress c \<in> set (map pool_poolAddress (pools (databaseClient st1))) \<longrightarrow>
            savePoolToDatabase w st1 c = (None, st1)"
    by (intro allI impI save_unchanged_if_stored)
  have noop: "helius_webhook ws2 st1 (Some (JsonArray ts)) = (200, st1) \<and>
          (\<forall>c \<in> set (parsedPools ts).
              length (filter (\<lambda>p. pool_poolAddress p = poolAddress c)
                        (pools (databaseClient st1))) = 1)"
    if ok: "\<forall>c \<in> set (parsedPools ts).
              (\<forall>i. storeAccepts (ws1 i) \<and> yieldLookupsReturn (ws1 i) c) \<and>
              insertable (databaseClient st) c \<and>
              (\<forall>c' \<in> set (parsedPools ts).
                 signature c' = signature c \<longrightarrow> poolAddress c' = poolAddress c)"
  proof
    have h1: "\<forall>c \<in> set (parsedPools ts). \<forall>i. storeAccepts (ws1 i) \<and> yieldLookupsReturn (ws1 i) c"
      using ok by blast
    have h2: "\<forall>c \<in> set (parsedPools ts). insertable (databaseClient st) c"
      using ok by blast
    have h3: "\<forall>c \<in> set (parsedPools ts). \<forall>c' \<in> set (parsedPools ts).
           signature c' = signature c \<longrightarrow> poolAddress c' = poolAddress c"
      using ok by blast
    have stored: "\<forall>c \<in> set (parsedPools ts).
        poolAddress c \<in> set (map pool_poolAddress (pools (databaseClient st1)))"
      unfolding st1 using h1 h2 h3 by (rule processTransactions_persists)
    then have "\<forall>t \<in> set ts. \<forall>c. acceptedType t \<and> parsePoolFromTransaction t = Some c \<longrightarrow>
        poolAddress c \<in> set (map pool_poolAddress (pools (databaseClient st1)))"
      using parsedPools_iff by blast
    then have "processTransactions ws2 0 st1 ts = st1"
      by (rule processTransactions_unchanged)
    with second show "helius_webhook ws2 st1 (Some (JsonArray ts)) = (200, st1)" by simp
    show "\<forall>c \<in> set (parsedPools ts).
              length (filter (\<lambda>p. pool_poolAddress p = poolAddress c)
                        (pools (databaseClient st1))) = 1"
    proof
      fix c assume "c \<in> set (parsedPools ts)"
      with stored
      have "poolAddress c \<in> set (map pool_poolAddress (pools (databaseClient st1)))" by blast
      with d1 show "length (filter (\<lambda>p. pool_poolAddress p = poolAddress c)
                        (pools (databaseClient st1))) = 1"
        by (rule distinct_map_filter_one)
    qed
  qed
  from d1 d2 skip noop show ?thesis by blast
qed

lemma parse_two_mints: "parsePoolFromTransaction tx_two_mints = Some candidate_two_mints"
  by (simp add: tx_two_mints_def candidate_two_mints_def parse_defs ids)

lemma quiet_getBestApy: "getBestApyForMint (llamaResponses quiet_world call) m = Inr None"
  by (simp add: quiet_world_def getBestApyForMint_def searchPools_def getAllPools_def
      withBackoff_def withBackoff_from.simps getAllPools_attempt_def response_ok_def)

lemma quiet_getFullTokenData: "getFullTokenData (jupiterResponses quiet_world m) m = None"
  by (simp add: quiet_world_def getFullTokenData_def getTokenInfo_def
      withBackoff_def withBackoff_from.simps getTokenInfo_attempt_def response_ok_def)

lemma save_two_mints:
  "savePoolToDatabase quiet_world empty_state candidate_two_mints =
     (Some \<lparr> pool_id = 1, pool_tokenA = ''MintA'', pool_tokenB = ''MintB'',
              pool_poolAddress = Some ''Pool'', pool_source = ''RAYDIUM'',
              pool_signature = Some ''sig2'', pool_apy = None, pool_tvl = None,
              pool_volume24h = None \<rparr>, stored_two_mints)"
  unfolding savePoolToDatabase_def quiet_getBestApy quiet_getFullTokenData
  by (simp add: poolExists_def pool_findUnique_def storePool_def pool_create_def storeEvent_def
      poolEvent_create_def wait_def new_RateLimiter_def empty_state_def stored_two_mints_def
      candidate_two_mints_def quiet_world_def or_null_def truthy_num_def or_str_def Let_def)

text \<open>A token metadata fetch that fails on every attempt leaves the pool persisted.\<close>

lemma jupiter_down_getFullTokenData:
  "getFullTokenData (jupiterResponses jupiter_down_world m) m = None"
  by (simp add: jupiter_down_world_def quiet_world_def getFullTokenData_def getTokenInfo_def
      withBackoff_def withBackoff_from.simps getTokenInfo_attempt_def)

lemma jupiter_down_getBestApy:
  "getBestApyForMint (llamaResponses jupiter_down_world call) m = Inr None"
  using quiet_getBestApy [of call m] by (simp add: jupiter_down_world_def)

lemma token_metadata_failure_still_persists:
  "savePoolToDatabase jupiter_down_world empty_state candidate_two_mints =
     (Some \<lparr> pool_id = 1, pool_tokenA = ''MintA'', pool_tokenB = ''MintB'',
              pool_poolAddress = Some ''Pool'', pool_source = ''RAYDIUM'',
              pool_signature = Some ''sig2'', pool_apy = None, pool_tvl = None,
              pool_volume24h = None \<rparr>, stored_two_mints)"
  unfolding savePoolToDatabase_def jupiter_down_getBestApy jupiter_down_getFullTokenData
  by (simp add: poolExists_def pool_findUnique_def storePool_def pool_create_def storeEvent_def
      poolEvent_create_def wait_def new_RateLimiter_def empty_state_def stored_two_mints_def
      candidate_two_mints_def jupiter_down_world_def quiet_world_def or_null_def truthy_num_def
      or_str_def Let_def)

lemma accepted_two_mints: "acceptedType tx_two_mints"
  by (simp add: acceptedType_def tx_two_mints_def)

lemma parsedPools_two_mints: "parsedPools [tx_two_mints] = [candidate_two_mints]"
  by (simp add: parsedPools_def accepted_two_mints parse_two_mints)

lemma quiet_world_accepts: "storeAccepts quiet_world \<and> yieldLookupsReturn quiet_world c"
  by (simp add: storeAccepts_def yieldLookupsReturn_def quiet_getBestApy)
    (simp add: quiet_world_def)

theorem duplicate_submission_is_noop_witness:
  "helius_webhook (\<lambda>i. quiet_world) empty_state (Some (JsonArray [tx_two_mints]))
     = (200, stored_two_mints) \<and>
   helius_webhook (\<lambda>i. llama_down_world) stored_two_mints (Some (JsonArray [tx_two_mints]))
     = (200, stored_two_mints) \<and>
   length (filter (\<lambda>p. pool_poolAddress p = Some ''Pool'')
             (pools (databaseClient stored_two_mints))) = 1"
proof -
  have acc: "acceptedType tx_two_mints"
    by (simp add: acceptedType_def tx_two_mints_def)
  have first: "helius_webhook (\<lambda>i. quiet_world) empty_state (Some (JsonArray [tx_two_mints]))
     = (200, stored_two_mints)"
    by (simp add: helius_webhook_def processWebhookPayload_def acc parse_two_mints save_two_mints)
  have inv: "distinct (map pool_poolAddress (pools (databaseClient empty_state)))"
    by (simp add: empty_state_def)
  have ins: "insertable (databaseClient empty_state) candidate_two_mints"
    by (simp add: insertable_def empty_state_def candidate_two_mints_def)
  have ok: "\<forall>c \<in> set (parsedPools [tx_two_mints]).
              (\<forall>i. storeAccepts ((\<lambda>i. quiet_world) i) \<and> yieldLookupsReturn ((\<lambda>i. quiet_world) i) c) \<and>
              insertable (databaseClient empty_state) c \<and>
              (\<forall>c' \<in> set (parsedPools [tx_two_mints]).
                 signature c' = signature c \<longrightarrow> poolAddress c' = poolAddress c)"
    using ins quiet_world_accepts by (simp add: parsedPools_two_mints)
  from duplicate_submission_is_noop [OF inv first, of "\<lambda>i. llama_down_world"] ok
  have "helius_webhook (\<lambda>i. llama_down_world) stored_two_mints (Some (JsonArray [tx_two_mints]))
          = (200, stored_two_mints) \<and>
        (\<forall>c \<in> set (parsedPools [tx_two_mints]).
           length (filter (\<lambda>p. pool_poolAddress p = poolAddress c)
                     (pools (databaseClient stored_two_mints))) = 1)"
    by blast
  with first show ?thesis
    by (simp add: parsedPools_two_mints candidate_two_mints_def)
qed

text \<open>
  When the store rejects the insertion, two submissions of the same payload leave no
  row; and after a first submission that left no row, a second one that the store
  accepts inserts the row, so it is not a no-op.
\<close>

lemma store_down_getBestApy:
  "getBestApyForMint (llamaResponses store_down_world call) m = Inr None"
  using quiet_getBestApy [of call m] by (simp add: store_down_world_def)

lemma store_down_getFullTokenData:
  "getFullTokenData (jupiterResponses store_down_world m) m = None"
  using quiet_getFullTokenData [of m] by (simp add: store_down_world_def)

lemma save_store_down_once:
  "savePoolToDatabase store_down_world empty_state candidate_two_mints = (None, unsaved_once)"
  unfolding savePoolToDatabase_def store_down_getBestApy store_down_getFullTokenData
  by (simp add: poolExists_def pool_findUnique_def storePool_def pool_create_def
      wait_def setTimeout_delay_def new_RateLimiter_def empty_state_def unsaved_once_def
      candidate_two_mints_def store_down_world_def quiet_world_def Let_def)

lemma save_store_down_twice:
  "savePoolToDatabase store_down_world unsaved_once candidate_two_mints = (None, unsaved_twice)"
  unfolding savePoolToDatabase_def store_down_getBestApy store_down_getFullTokenData
  by (simp add: poolExists_def pool_findUnique_def storePool_def pool_create_def
      wait_def setTimeout_delay_def unsaved_once_def unsaved_twice_def
      candidate_two_mints_def store_down_world_def quiet_world_def Let_def)

lemma save_after_store_down:
  "snd (savePoolToDatabase quiet_world unsaved_once candidate_two_mints) = stored_late"
  unfolding savePoolToDatabase_def quiet_getBestApy quiet_getFullTokenData
  by (simp add: poolExists_def pool_findUnique_def storePool_def pool_create_def storeEvent_def
      poolEvent_create_def wait_def setTimeout_delay_def unsaved_once_def stored_late_def
      stored_two_mints_def candidate_two_mints_def quiet_world_def or_null_def truthy_num_def
      or_str_def Let_def)

theorem duplicate_submission_counterexample:
  "helius_webhook (\<lambda>i. store_down_world) empty_state (Some (JsonArray [tx_two_mints]))
     = (200, unsaved_once) \<and>
   helius_webhook (\<lambda>i. store_down_world) unsaved_once (Some (JsonArray [tx_two_mints]))
     = (200, unsaved_twice) \<and>
   length (filter (\<lambda>p. pool_poolAddress p = Some ''Pool'')
             (pools (databaseClient unsaved_twice))) = 0 \<and>
   helius_webhook (\<lambda>i. quiet_world) unsaved_once (Some (JsonArray [tx_two_mints]))
     = (200, stored_late) \<and>
   pools (databaseClient stored_late) \<noteq> pools (databaseClient unsaved_once)"
proof -
  have acc: "acceptedType tx_two_mints"
    by (simp add: acceptedType_def tx_two_mints_def)
  show ?thesis
    by (simp add: helius_webhook_def processWebhookPayload_def acc parse_two_mints
        save_store_down_once save_store_down_twice save_after_store_down)
      (simp add: unsaved_twice_def unsaved_once_def stored_late_def stored_two_mints_def)
qed

end
